theory Spec2Isabelle
  imports Complex_Main "HOL-Library.Multiset" "HOL-Library.Sublist"
begin

section \<open>Data model\<close>

text \<open>
  One row of the player table of \<^verbatim>\<open>streamlit_app.py\<close>, with the columns the script reads.
  The row type is polymorphic in the type of a numeric cell: the table read from the CSV
  file has cells that may be missing (\<open>real option\<close>, \<open>None\<close> for pandas' NaN), the table
  the rest of the script works on has plain numbers, which is what \<open>load_data\<close> establishes.
  A float is modelled as a real number: comparisons are exact on floats, sums are
  idealised. The loader fills numeric columns only, so the team cell and the role cell
  may be missing in every table (\<open>None\<close>); the name is always present. Texts are
  strings of ASCII characters. Of the numeric columns of the file, the four the script
  reads are modelled.
\<close>

record 'n row =
  player_name :: string
  Team_2025 :: "string option"
  Role :: "string option"
  Total_Matches :: 'n
  Strike_Rate :: 'n
  Economy_Rate :: 'n
  Predicted_Fantasy_Score :: 'n

type_synonym csv_row = "real option row"
type_synonym player = "real row"

datatype py_error = KeyError | ValueError | AttributeError

section \<open>Dataset loader (lines 7-13)\<close>

definition fillna :: "real \<Rightarrow> real option \<Rightarrow> real option" where
  "fillna v c = (case c of None \<Rightarrow> Some v | Some x \<Rightarrow> Some x)"

definition fillna_numeric :: "csv_row \<Rightarrow> csv_row" where
  "fillna_numeric r =
     r\<lparr>Total_Matches := fillna 0 (Total_Matches r),
       Strike_Rate := fillna 0 (Strike_Rate r),
       Economy_Rate := fillna 0 (Economy_Rate r),
       Predicted_Fantasy_Score := fillna 0 (Predicted_Fantasy_Score r)\<rparr>"

definition load_data :: "csv_row list \<Rightarrow> csv_row list" where
  "load_data csv =
     (let df = map fillna_numeric csv
      in filter (\<lambda>r. Team_2025 r \<noteq> Some ''-'') df)"

section \<open>Filter engine (lines 29-36)\<close>

text \<open>\<^verbatim>\<open>Series.isin(values)\<close> on a text cell: a missing cell is in no list of strings.\<close>

definition isin :: "string option \<Rightarrow> string list \<Rightarrow> bool" where
  "isin c vs = (case c of None \<Rightarrow> False | Some t \<Rightarrow> t \<in> set vs)"

definition filtered_df :: "player list \<Rightarrow> string list \<Rightarrow> int \<Rightarrow> real \<Rightarrow> real \<Rightarrow> player list" where
  "filtered_df df selected_teams min_matches min_sr max_econ =
     (let fdf = filter (\<lambda>p. Total_Matches p \<ge> of_int min_matches
                            \<and> Strike_Rate p \<ge> min_sr
                            \<and> Economy_Rate p \<le> max_econ) df
      in if selected_teams \<noteq> []
         then filter (\<lambda>p. isin (Team_2025 p) selected_teams) fdf
         else fdf)"

section \<open>Role classifier (lines 73-78, 94, 154-157)\<close>

datatype bucket = WK | BAT | AR | BOWL

text \<open>The keys of both dictionaries in insertion order, which is their iteration order.\<close>

definition bucket_order :: "bucket list" where
  "bucket_order = [WK, BAT, AR, BOWL]"

fun role_map :: "bucket \<Rightarrow> string list" where
  "role_map WK = [''BAT WK'', ''WK'']"
| "role_map BAT = [''BAT'', ''BATTER'']"
| "role_map AR = [''AR'', ''ALL-ROUNDER'']"
| "role_map BOWL = [''BOWL'', ''BOWLER'']"

fun role_priority :: "bucket \<Rightarrow> int" where
  "role_priority WK = 1"
| "role_priority BAT = 2"
| "role_priority AR = 3"
| "role_priority BOWL = 4"

text \<open>
  \<^verbatim>\<open>str.upper()\<close> on ASCII text: each of the letters a-z is replaced by its capital,
  every other character is kept.
\<close>

definition upper_char :: "char \<Rightarrow> char" where
  "upper_char c =
     (case map_of (zip ''abcdefghijklmnopqrstuvwxyz'' ''ABCDEFGHIJKLMNOPQRSTUVWXYZ'') c of
        None \<Rightarrow> c
      | Some u \<Rightarrow> u)"

definition upper :: "string \<Rightarrow> string" where
  "upper s = map upper_char s"

text \<open>
  \<^verbatim>\<open>Series.str.upper()\<close>: the accessor upper-cases the cells that hold a text and leaves
  a missing cell missing.
\<close>

definition str_upper :: "string option \<Rightarrow> string option" where
  "str_upper c = map_option upper c"

text \<open>Python's \<^verbatim>\<open>k in s\<close> on strings: \<open>k\<close> occurs in \<open>s\<close> as a contiguous substring.\<close>

fun starts_with :: "string \<Rightarrow> string \<Rightarrow> bool" where
  "starts_with s [] = True"
| "starts_with [] (c # k) = False"
| "starts_with (d # s) (c # k) = (c = d \<and> starts_with s k)"

fun str_in :: "string \<Rightarrow> string \<Rightarrow> bool" where
  "str_in k [] = (k = [])"
| "str_in k (d # s) = (starts_with (d # s) k \<or> str_in k s)"

text \<open>Line 94 (and 100, 106, 112, 139): the rows of a tab, by exact membership.\<close>

definition role_rows :: "bucket \<Rightarrow> player list \<Rightarrow> player list" where
  "role_rows b df = filter (\<lambda>p. isin (str_upper (Role p)) (role_map b)) df"

text \<open>
  Lines 156 and 187, the lambda, applied to one cell of the column \<^verbatim>\<open>Role\<close>. On a text
  it gives the priority of the first key of \<open>role_priority\<close> one of whose keywords occurs
  in the upper-cased text, 99 when there is none. A missing cell is a float (NaN), which
  has no method \<^verbatim>\<open>upper\<close>: the call \<^verbatim>\<open>r.upper()\<close> raises \<^verbatim>\<open>AttributeError\<close>.
\<close>

definition role_order :: "string option \<Rightarrow> py_error + int" where
  "role_order r =
     (case r of
        None \<Rightarrow> Inl AttributeError
      | Some text \<Rightarrow>
          Inr (case List.find (\<lambda>b. list_ex (\<lambda>k. str_in k (upper text)) (role_map b)) bucket_order of
                 None \<Rightarrow> 99
               | Some b \<Rightarrow> role_priority b))"

text \<open>
  \<^verbatim>\<open>Series.apply(f)\<close>: the function is applied cell by cell, in row order, and the first
  exception ends the call.
\<close>

fun series_apply :: "('a \<Rightarrow> py_error + 'b) \<Rightarrow> 'a list \<Rightarrow> py_error + 'b list" where
  "series_apply f [] = Inr []"
| "series_apply f (x # xs) =
     (case f x of
        Inl e \<Rightarrow> Inl e
      | Inr y \<Rightarrow> (case series_apply f xs of Inl e \<Rightarrow> Inl e | Inr ys \<Rightarrow> Inr (y # ys)))"

section \<open>Sorting a table\<close>

text \<open>
  \<^verbatim>\<open>DataFrame.sort_values\<close> on one column hands the column to NumPy's \<^verbatim>\<open>argsort\<close> with
  the default \<^verbatim>\<open>kind='quicksort'\<close>, which is not a stable sort: where rows of equal key
  end up is decided by the library, not by the script. The routine is therefore a
  parameter of the model, one for each type of column sorted (the scores are floats,
  the role priorities integers). All that is assumed of it, by \<open>numpy_ok\<close>, is what
  \<^verbatim>\<open>argsort\<close> documents: it is a function of the keys alone and returns the positions
  \<open>0, \<dots>, n - 1\<close> in an order in which the keys are ascending.
\<close>

record numpy =
  argsort_float64 :: "real list \<Rightarrow> nat list"
  argsort_int64 :: "int list \<Rightarrow> nat list"

definition is_argsort :: "('k::linorder list \<Rightarrow> nat list) \<Rightarrow> bool" where
  "is_argsort argsort =
     (\<forall>ks. mset (argsort ks) = mset [0 ..< length ks]
           \<and> sorted (map (\<lambda>i. ks ! i) (argsort ks)))"

definition numpy_ok :: "numpy \<Rightarrow> bool" where
  "numpy_ok np = (is_argsort (argsort_float64 np) \<and> is_argsort (argsort_int64 np))"

text \<open>
  \<^verbatim>\<open>sort_values(col)\<close>: the rows taken at the positions that \<^verbatim>\<open>argsort\<close> returns for
  the column. \<^verbatim>\<open>sort_values(col, ascending=False)\<close>: pandas reverses the rows, sorts
  them ascending and reverses the result.
\<close>

definition sort_values :: "('k list \<Rightarrow> nat list) \<Rightarrow> ('a \<Rightarrow> 'k) \<Rightarrow> 'a list \<Rightarrow> 'a list" where
  "sort_values argsort col df = map (\<lambda>i. df ! i) (argsort (map col df))"

definition sort_values_desc :: "('k list \<Rightarrow> nat list) \<Rightarrow> ('a \<Rightarrow> 'k) \<Rightarrow> 'a list \<Rightarrow> 'a list" where
  "sort_values_desc argsort col df =
     (let reversed = rev df
      in rev (map (\<lambda>i. reversed ! i) (argsort (map col reversed))))"

text \<open>
  Two routines that meet \<open>numpy_ok\<close>, to run the model on sample tables: an insertion
  sort of the positions, which keeps equal keys in their order, and the same sort fed
  with the positions backwards, which puts equal keys in the opposite order.
\<close>

definition insertion_argsort :: "'k::linorder list \<Rightarrow> nat list" where
  "insertion_argsort ks = sort_key (\<lambda>i. ks ! i) [0 ..< length ks]"

definition backward_argsort :: "'k::linorder list \<Rightarrow> nat list" where
  "backward_argsort ks = sort_key (\<lambda>i. ks ! i) (rev [0 ..< length ks])"

definition np_insertion :: numpy where
  "np_insertion = \<lparr>argsort_float64 = insertion_argsort, argsort_int64 = insertion_argsort\<rparr>"

definition np_backward :: numpy where
  "np_backward = \<lparr>argsort_float64 = backward_argsort, argsort_int64 = backward_argsort\<rparr>"

section \<open>Summary tab (lines 117-205)\<close>

text \<open>What the tab shows, in order. Each constructor is one Streamlit call of the block.\<close>

datatype ui =
    St_error nat                         \<comment> \<open>line 126, with the number of selected names\<close>
  | St_write nat                         \<comment> \<open>line 131, with the number of rows of \<open>user_df\<close>\<close>
  | St_success                           \<comment> \<open>line 166\<close>
  | St_dataframe_auto "(player \<times> string) list"  \<comment> \<open>line 167, each row with its \<open>Team_Role\<close>\<close>
  | St_dataframe "player list"           \<comment> \<open>line 191\<close>
  | St_info real real                    \<comment> \<open>lines 180 and 203: total and average\<close>
  | St_warning                           \<comment> \<open>line 205\<close>

subsection \<open>Automatic mode (lines 136-180)\<close>

text \<open>Lines 139-142, the body of the loop over \<open>role_map\<close>.\<close>

definition add_best :: "numpy \<Rightarrow> player list \<Rightarrow> player list \<Rightarrow> bucket \<Rightarrow> player list" where
  "add_best np fdf auto_team b =
     (let sub = role_rows b fdf
      in if length sub > 0
         then auto_team
                @ take 1 (sort_values_desc (argsort_float64 np) Predicted_Fantasy_Score sub)
         else auto_team)"

text \<open>
  What one pass of that loop adds: the first row of the bucket's rows by descending score,
  nothing when the bucket has no row (an auxiliary name for the proofs below).
\<close>

definition best_of :: "numpy \<Rightarrow> player list \<Rightarrow> bucket \<Rightarrow> player list" where
  "best_of np fdf b =
     take 1 (sort_values_desc (argsort_float64 np) Predicted_Fantasy_Score (role_rows b fdf))"

text \<open>Lines 137-142. The empty list is \<^verbatim>\<open>pd.DataFrame()\<close>: a frame with no column.\<close>

definition best_per_role :: "numpy \<Rightarrow> player list \<Rightarrow> player list" where
  "best_per_role np fdf = foldl (add_best np fdf) [] bucket_order"

text \<open>
  Lines 144-151. Reading the column \<^verbatim>\<open>player_name\<close> of the frame with no column raises
  \<^verbatim>\<open>KeyError\<close>.
\<close>

definition fill_remaining :: "numpy \<Rightarrow> player list \<Rightarrow> player list \<Rightarrow> py_error + player list" where
  "fill_remaining np fdf auto_team =
     (if length auto_team < 11
      then if auto_team = [] then Inl KeyError
           else let remaining = filter (\<lambda>p. player_name p \<notin> set (map player_name auto_team)) fdf;
                    add = take (11 - length auto_team)
                            (sort_values_desc (argsort_float64 np) Predicted_Fantasy_Score remaining)
                in Inr (auto_team @ add)
      else Inr auto_team)"

definition assemble :: "numpy \<Rightarrow> player list \<Rightarrow> py_error + player list" where
  "assemble np fdf = fill_remaining np fdf (best_per_role np fdf)"

text \<open>
  Lines 154-158 and 185-189: the column \<^verbatim>\<open>role_order\<close> is computed from the column
  \<^verbatim>\<open>Role\<close> and added to the frame, the frame is sorted by it, and the column is dropped.
\<close>

definition sort_role_order :: "numpy \<Rightarrow> player list \<Rightarrow> py_error + player list" where
  "sort_role_order np team =
     (case series_apply role_order (map Role team) of
        Inl e \<Rightarrow> Inl e
      | Inr order \<Rightarrow>
          Inr (map fst (sort_values (argsort_int64 np) snd (zip team order))))"

text \<open>
  Lines 161-164. Assigning a list of 11 labels as a column of a frame whose number of rows
  is not 11 raises \<^verbatim>\<open>ValueError\<close>.
\<close>

definition team_roles :: "string list" where
  "team_roles =
     map (\<lambda>i. if i = 0 then ''Captain'' else if i = 1 then ''Vice Captain'' else ''Player'')
       [0 ..< 11]"

definition assign_team_role :: "player list \<Rightarrow> py_error + (player \<times> string) list" where
  "assign_team_role team =
     (if length team_roles \<noteq> length team then Inl ValueError
      else Inr (zip team team_roles))"

text \<open>Lines 179-180.\<close>

definition auto_info :: "player list \<Rightarrow> ui" where
  "auto_info team =
     (let total_score = sum_list (map Predicted_Fantasy_Score team)
      in St_info total_score (total_score / 11))"

text \<open>Lines 160-180, on the roster as line 158 leaves it.\<close>

definition show_team :: "numpy \<Rightarrow> player list \<Rightarrow> py_error + ui list" where
  "show_team np auto_team =
     (let auto_team = sort_values_desc (argsort_float64 np) Predicted_Fantasy_Score auto_team
      in case assign_team_role auto_team of
           Inl e \<Rightarrow> Inl e
         | Inr shown \<Rightarrow> Inr [St_success, St_dataframe_auto shown, auto_info auto_team])"

definition optimize_xi :: "numpy \<Rightarrow> player list \<Rightarrow> py_error + ui list" where
  "optimize_xi np fdf =
     (case assemble np fdf of
        Inl e \<Rightarrow> Inl e
      | Inr auto_team \<Rightarrow>
          (case sort_role_order np auto_team of
             Inl e \<Rightarrow> Inl e
           | Inr auto_team \<Rightarrow> show_team np auto_team))"

text \<open>
  The same pipeline with lines 154-158 left out, to compare with \<open>optimize_xi\<close>.
\<close>

definition optimize_xi_without_role_sort :: "numpy \<Rightarrow> player list \<Rightarrow> py_error + ui list" where
  "optimize_xi_without_role_sort np fdf =
     (case assemble np fdf of
        Inl e \<Rightarrow> Inl e
      | Inr auto_team \<Rightarrow> show_team np auto_team)"

subsection \<open>Manual mode (lines 183-205)\<close>

definition manual_summary :: "numpy \<Rightarrow> player list \<Rightarrow> py_error + ui list" where
  "manual_summary np user_df =
     (if length user_df > 0
      then case sort_role_order np user_df of
             Inl e \<Rightarrow> Inl e
           | Inr user_df \<Rightarrow>
               let total_score = sum_list (map Predicted_Fantasy_Score user_df)
               in Inr [St_dataframe user_df,
                       St_info total_score (total_score / real (length user_df))]
      else Inr [St_warning])"

subsection \<open>The whole block\<close>

text \<open>
  \<^verbatim>\<open>list(set(...))\<close> is the list of the distinct names in some order; only its length
  and its members are used. An exception stops the script: nothing after it is shown.
\<close>

definition tab_summary ::
  "numpy \<Rightarrow> player list \<Rightarrow> string list \<Rightarrow> string list \<Rightarrow> string list \<Rightarrow> string list \<Rightarrow> bool
     \<Rightarrow> py_error + ui list" where
  "tab_summary np fdf chosen_wk chosen_bat chosen_ar chosen_bowl optimize =
     (let user_selection = remdups (chosen_wk @ chosen_bat @ chosen_ar @ chosen_bowl);
          user_df = filter (\<lambda>p. player_name p \<in> set user_selection) fdf;
          over = (length user_selection > 11);
          user_df = (if over then take 11 user_df else user_df);
          shown = (if over then [St_error (length user_selection)] else [])
                    @ [St_write (length user_df)]
      in case (if optimize then optimize_xi np fdf else manual_summary np user_df) of
           Inl e \<Rightarrow> Inl e
         | Inr summary \<Rightarrow> Inr (shown @ summary))"

section \<open>Sample players\<close>

definition sample :: "string \<Rightarrow> string \<Rightarrow> real \<Rightarrow> player" where
  "sample name role score =
     \<lparr>player_name = name, Team_2025 = Some ''CSK'', Role = Some role, Total_Matches = 10,
      Strike_Rate = 120, Economy_Rate = 8, Predicted_Fantasy_Score = score\<rparr>"

text \<open>
  A row without role text, and sample pools. \<open>tie_pool\<close>: a full pool of 11 in which a
  bowler and the second wicketkeeper have the same score. \<open>spread_pool\<close>: the same pool
  with pairwise distinct scores. \<open>overflow_pool\<close>: twelve batters, for a manual
  selection of more than 11 names. \<open>level_pool\<close>: eleven players of one score, of whom
  only the wicketkeeper and the bowler have a keyword for role; the role of the others
  contains the keyword WK. \<open>missing_role_pool\<close>: the same shape with distinct scores
  and a last row without role text.
\<close>

definition no_role :: "string \<Rightarrow> real \<Rightarrow> player" where
  "no_role name score = (sample name [] score)\<lparr>Role := None\<rparr>"

definition tie_pool :: "player list" where
  "tie_pool =
     [sample ''Keeper One'' ''WK'' 20, sample ''Pacer'' ''Bowler'' 10,
      sample ''Keeper Two'' ''WK'' 10,
      sample ''Bat 1'' ''Batter'' 1, sample ''Bat 2'' ''Batter'' 2,
      sample ''Bat 3'' ''Batter'' 3, sample ''Bat 4'' ''Batter'' 4,
      sample ''Bat 5'' ''Batter'' 5, sample ''Bat 6'' ''Batter'' 6,
      sample ''Bat 7'' ''Batter'' 7, sample ''Bat 8'' ''Batter'' 8]"

definition spread_pool :: "player list" where
  "spread_pool =
     [sample ''Keeper One'' ''WK'' 20, sample ''Pacer'' ''Bowler'' 11,
      sample ''Keeper Two'' ''WK'' 10,
      sample ''Bat 1'' ''Batter'' 1, sample ''Bat 2'' ''Batter'' 2,
      sample ''Bat 3'' ''Batter'' 3, sample ''Bat 4'' ''Batter'' 4,
      sample ''Bat 5'' ''Batter'' 5, sample ''Bat 6'' ''Batter'' 6,
      sample ''Bat 7'' ''Batter'' 7, sample ''Bat 8'' ''Batter'' 8]"

definition overflow_pool :: "player list" where
  "overflow_pool =
     [sample ''Bat 01'' ''Batter'' 1, sample ''Bat 02'' ''Batter'' 2,
      sample ''Bat 03'' ''Batter'' 3, sample ''Bat 04'' ''Batter'' 4,
      sample ''Bat 05'' ''Batter'' 5, sample ''Bat 06'' ''Batter'' 6,
      sample ''Bat 07'' ''Batter'' 7, sample ''Bat 08'' ''Batter'' 8,
      sample ''Bat 09'' ''Batter'' 9, sample ''Bat 10'' ''Batter'' 10,
      sample ''Bat 11'' ''Batter'' 11, sample ''Bat 12'' ''Batter'' 12]"

definition level_pool :: "player list" where
  "level_pool =
     [sample ''Keeper'' ''WK'' 5, sample ''Pacer'' ''Bowler'' 5,
      sample ''Hitter 1'' ''WK-Batter'' 5, sample ''Hitter 2'' ''WK-Batter'' 5,
      sample ''Hitter 3'' ''WK-Batter'' 5, sample ''Hitter 4'' ''WK-Batter'' 5,
      sample ''Hitter 5'' ''WK-Batter'' 5, sample ''Hitter 6'' ''WK-Batter'' 5,
      sample ''Hitter 7'' ''WK-Batter'' 5, sample ''Hitter 8'' ''WK-Batter'' 5,
      sample ''Hitter 9'' ''WK-Batter'' 5]"

definition missing_role_pool :: "player list" where
  "missing_role_pool =
     [sample ''Keeper'' ''WK'' 30, sample ''Pacer'' ''Bowler'' 20,
      sample ''Hitter 1'' ''WK-Batter'' 11, sample ''Hitter 2'' ''WK-Batter'' 12,
      sample ''Hitter 3'' ''WK-Batter'' 13, sample ''Hitter 4'' ''WK-Batter'' 14,
      sample ''Hitter 5'' ''WK-Batter'' 15, sample ''Hitter 6'' ''WK-Batter'' 16,
      sample ''Hitter 7'' ''WK-Batter'' 17, sample ''Hitter 8'' ''WK-Batter'' 18,
      no_role ''Newcomer'' 19]"

text \<open>
  Three rows of a CSV file: one complete but for two rates, one of the sentinel team,
  one with no team, no role and no match count.
\<close>

definition csv_a :: csv_row where
  "csv_a = \<lparr>player_name = ''A'', Team_2025 = Some ''MI'', Role = Some ''Batter'',
             Total_Matches = Some 12, Strike_Rate = None, Economy_Rate = None,
             Predicted_Fantasy_Score = Some 41\<rparr>"

definition csv_b :: csv_row where
  "csv_b = \<lparr>player_name = ''B'', Team_2025 = Some ''-'', Role = Some ''Bowler'',
             Total_Matches = Some 3, Strike_Rate = Some 90, Economy_Rate = Some 7,
             Predicted_Fantasy_Score = None\<rparr>"

definition csv_c :: csv_row where
  "csv_c = \<lparr>player_name = ''C'', Team_2025 = None, Role = None,
             Total_Matches = None, Strike_Rate = Some 130, Economy_Rate = None,
             Predicted_Fantasy_Score = Some (- 2)\<rparr>"

section \<open>Sorting\<close>

lemma is_argsort_mset: "is_argsort argsort \<Longrightarrow> mset (argsort ks) = mset [0 ..< length ks]"
  by (simp add: is_argsort_def)

lemma is_argsort_sorted: "is_argsort argsort \<Longrightarrow> sorted (map (\<lambda>i. ks ! i) (argsort ks))"
  by (simp add: is_argsort_def)

lemma is_argsort_set: "is_argsort argsort \<Longrightarrow> set (argsort ks) = {0 ..< length ks}"
  using is_argsort_mset [of argsort ks] by (metis mset_eq_setD set_upt)

lemma is_argsort_length: "is_argsort argsort \<Longrightarrow> length (argsort ks) = length ks"
  using is_argsort_mset [of argsort ks] by (metis mset_eq_length length_upt diff_zero)

lemma is_argsort_Nil: "is_argsort argsort \<Longrightarrow> argsort [] = []"
  using is_argsort_length [of argsort "[]"] by simp

lemma is_argsort_single: "is_argsort argsort \<Longrightarrow> argsort [k] = [0]"
proof -
  assume a: "is_argsort argsort"
  have "length (argsort [k]) = 1" using is_argsort_length [OF a, of "[k]"] by simp
  moreover have "set (argsort [k]) = {0}" using is_argsort_set [OF a, of "[k]"] by simp
  ultimately show ?thesis
    by (cases "argsort [k]") auto
qed

lemma is_argsort_insertion: "is_argsort insertion_argsort"
  by (simp add: is_argsort_def insertion_argsort_def sorted_sort_key)

lemma is_argsort_backward: "is_argsort backward_argsort"
  by (simp add: is_argsort_def backward_argsort_def sorted_sort_key)

lemma numpy_ok_insertion: "numpy_ok np_insertion"
  by (simp add: numpy_ok_def np_insertion_def is_argsort_insertion)

lemma numpy_ok_backward: "numpy_ok np_backward"
  by (simp add: numpy_ok_def np_backward_def is_argsort_backward)

lemma mset_sort_values:
  assumes "is_argsort argsort"
  shows "mset (sort_values argsort col df) = mset df"
proof -
  have "mset (map (\<lambda>i. df ! i) (argsort (map col df))) =
        image_mset (\<lambda>i. df ! i) (mset (argsort (map col df)))"
    by simp
  also have "\<dots> = image_mset (\<lambda>i. df ! i) (mset [0 ..< length df])"
    using is_argsort_mset [OF assms, of "map col df"] by simp
  also have "\<dots> = mset (map (\<lambda>i. df ! i) [0 ..< length df])"
    by simp
  also have "\<dots> = mset df"
    by (simp add: map_nth)
  finally show ?thesis by (simp add: sort_values_def)
qed

lemma set_sort_values: "is_argsort argsort \<Longrightarrow> set (sort_values argsort col df) = set df"
  using mset_sort_values [of argsort col df] by (metis mset_eq_setD)

lemma length_sort_values: "is_argsort argsort \<Longrightarrow> length (sort_values argsort col df) = length df"
  using mset_sort_values [of argsort col df] by (metis mset_eq_length)

lemma sorted_sort_values:
  assumes "is_argsort argsort"
  shows "sorted (map col (sort_values argsort col df))"
proof -
  have "map col (sort_values argsort col df) =
        map (\<lambda>i. map col df ! i) (argsort (map col df))"
    using is_argsort_set [OF assms, of "map col df"]
    by (simp add: sort_values_def)
  then show ?thesis
    using is_argsort_sorted [OF assms, of "map col df"] by simp
qed

lemma sort_values_desc_rev:
  "sort_values_desc argsort col df = rev (sort_values argsort col (rev df))"
  by (simp add: sort_values_desc_def sort_values_def Let_def)

lemma mset_sort_values_desc:
  "is_argsort argsort \<Longrightarrow> mset (sort_values_desc argsort col df) = mset df"
  by (simp add: sort_values_desc_rev mset_sort_values)

lemma set_sort_values_desc:
  "is_argsort argsort \<Longrightarrow> set (sort_values_desc argsort col df) = set df"
  by (simp add: sort_values_desc_rev set_sort_values)

lemma length_sort_values_desc:
  "is_argsort argsort \<Longrightarrow> length (sort_values_desc argsort col df) = length df"
  by (simp add: sort_values_desc_rev length_sort_values)

lemma sorted_sort_values_desc:
  assumes "is_argsort argsort"
  shows "sorted_wrt (\<lambda>a b. col a \<ge> col b) (sort_values_desc argsort col df)"
proof -
  have "sorted_wrt (\<le>) (map col (sort_values argsort col (rev df)))"
    by (rule sorted_sort_values [OF assms])
  then have "sorted_wrt (\<lambda>a b. col a \<le> col b) (sort_values argsort col (rev df))"
    by (simp add: sorted_wrt_map)
  then show ?thesis
    by (simp add: sort_values_desc_rev sorted_wrt_rev)
qed

lemma sort_values_desc_Nil: "is_argsort argsort \<Longrightarrow> sort_values_desc argsort col [] = []"
  using length_sort_values_desc [of argsort col "[]"] by simp

lemma sort_values_desc_single: "is_argsort argsort \<Longrightarrow> sort_values_desc argsort col [x] = [x]"
  by (simp add: sort_values_desc_def is_argsort_single)

lemma sort_values_single: "is_argsort argsort \<Longrightarrow> sort_values argsort col [x] = [x]"
  by (simp add: sort_values_def is_argsort_single)

lemma sum_list_mset_cong:
  "mset xs = mset ys \<Longrightarrow> sum_list (map f xs) = (sum_list (map f ys) :: real)"
  by (metis mset_map sum_mset_sum_list)

lemma map_const: "\<forall>x \<in> set xs. f x = c \<Longrightarrow> map f xs = replicate (length xs) c"
  by (induction xs) auto

text \<open>With pairwise distinct keys the result of a sort is the same for every order of the rows.\<close>

lemma sort_values_desc_unique:
  assumes "is_argsort argsort" and "distinct (map col xs)" and "mset ys = mset xs"
  shows "sort_values_desc argsort col ys = sort_values_desc argsort col xs"
proof -
  have "mset (map col ys) = mset (map col xs)"
    using assms(3) by simp
  then have d: "distinct (map col ys)"
    using assms(2) by (metis mset_eq_imp_distinct_iff)
  have s: "set ys = set xs" using assms(3) by (rule mset_eq_setD)
  have inj: "inj_on col (set xs)" using assms(2) by (simp add: distinct_map)
  have "sort_values argsort col (rev ys) = sort_values argsort col (rev xs)"
  proof (rule map_sorted_distinct_set_unique [where f = col])
    show "inj_on col (set (sort_values argsort col (rev ys)) \<union> set (sort_values argsort col (rev xs)))"
      using inj s by (simp add: set_sort_values [OF assms(1)])
    show "sorted (map col (sort_values argsort col (rev ys)))"
      and "sorted (map col (sort_values argsort col (rev xs)))"
      by (rule sorted_sort_values [OF assms(1)])+
    have "mset (map col (sort_values argsort col (rev ys))) = mset (map col ys)"
      by (simp add: mset_sort_values [OF assms(1)])
    then show "distinct (map col (sort_values argsort col (rev ys)))"
      using d by (metis mset_eq_imp_distinct_iff)
    have "mset (map col (sort_values argsort col (rev xs))) = mset (map col xs)"
      by (simp add: mset_sort_values [OF assms(1)])
    then show "distinct (map col (sort_values argsort col (rev xs)))"
      using assms(2) by (metis mset_eq_imp_distinct_iff)
    show "set (sort_values argsort col (rev ys)) = set (sort_values argsort col (rev xs))"
      using s by (simp add: set_sort_values [OF assms(1)])
  qed
  then show ?thesis by (simp add: sort_values_desc_rev)
qed

text \<open>
  The routine sees the keys only: on two tables with the same column of keys it moves
  the rows in the same way, so that different tables stay different.
\<close>

lemma sort_values_desc_same_keys:
  assumes "is_argsort argsort" and "map col xs = map col ys" and "xs \<noteq> ys"
  shows "sort_values_desc argsort col xs \<noteq> sort_values_desc argsort col ys"
proof
  assume eq: "sort_values_desc argsort col xs = sort_values_desc argsort col ys"
  have len: "length xs = length ys"
    using assms(2) by (rule map_eq_imp_length_eq)
  have keys: "map col (rev xs) = map col (rev ys)"
    using assms(2) by (simp add: rev_map [symmetric])
  have "map (\<lambda>i. rev xs ! i) (argsort (map col (rev xs))) =
        map (\<lambda>i. rev ys ! i) (argsort (map col (rev xs)))"
    using eq by (simp add: sort_values_desc_def Let_def keys)
  then have "\<forall>i \<in> set (argsort (map col (rev xs))). rev xs ! i = rev ys ! i"
    by simp
  then have "\<forall>i < length (rev xs). rev xs ! i = rev ys ! i"
    using is_argsort_set [OF assms(1), of "map col (rev xs)"] by simp
  then have "rev xs = rev ys"
    using len by (intro nth_equalityI) simp_all
  then show False using assms(3) by simp
qed

section \<open>The loader\<close>

lemma fillna_numeric_cells:
  "Total_Matches (fillna_numeric r) = Some (case Total_Matches r of None \<Rightarrow> 0 | Some v \<Rightarrow> v)"
  "Strike_Rate (fillna_numeric r) = Some (case Strike_Rate r of None \<Rightarrow> 0 | Some v \<Rightarrow> v)"
  "Economy_Rate (fillna_numeric r) = Some (case Economy_Rate r of None \<Rightarrow> 0 | Some v \<Rightarrow> v)"
  "Predicted_Fantasy_Score (fillna_numeric r) =
     Some (case Predicted_Fantasy_Score r of None \<Rightarrow> 0 | Some v \<Rightarrow> v)"
  "player_name (fillna_numeric r) = player_name r"
  "Team_2025 (fillna_numeric r) = Team_2025 r"
  "Role (fillna_numeric r) = Role r"
  by (simp_all add: fillna_numeric_def fillna_def split: option.splits)

text \<open>
  Claim C9. The loaded table consists of exactly the rows of the file whose team is not
  the sentinel \<open>''-''\<close>, each with every missing numeric cell replaced by 0 and every
  other cell unchanged. Hence no numeric cell of a loaded row is missing and no loaded
  row has the team \<open>''-''\<close>.
\<close>

theorem load_data_fills_and_drops:
  "(r' \<in> set (load_data csv) \<longleftrightarrow>
      (\<exists>r \<in> set csv. Team_2025 r \<noteq> Some ''-'' \<and> r' = fillna_numeric r))
   \<and> (\<forall>r. Total_Matches (fillna_numeric r) = Some (case Total_Matches r of None \<Rightarrow> 0 | Some v \<Rightarrow> v)
        \<and> Strike_Rate (fillna_numeric r) = Some (case Strike_Rate r of None \<Rightarrow> 0 | Some v \<Rightarrow> v)
        \<and> Economy_Rate (fillna_numeric r) = Some (case Economy_Rate r of None \<Rightarrow> 0 | Some v \<Rightarrow> v)
        \<and> Predicted_Fantasy_Score (fillna_numeric r) =
            Some (case Predicted_Fantasy_Score r of None \<Rightarrow> 0 | Some v \<Rightarrow> v)
        \<and> player_name (fillna_numeric r) = player_name r
        \<and> Team_2025 (fillna_numeric r) = Team_2025 r
        \<and> Role (fillna_numeric r) = Role r)
   \<and> (\<forall>p \<in> set (load_data csv).
        Total_Matches p \<noteq> None \<and> Strike_Rate p \<noteq> None \<and> Economy_Rate p \<noteq> None
        \<and> Predicted_Fantasy_Score p \<noteq> None \<and> Team_2025 p \<noteq> Some ''-'')"
proof (intro conjI)
  show "r' \<in> set (load_data csv) \<longleftrightarrow>
      (\<exists>r \<in> set csv. Team_2025 r \<noteq> Some ''-'' \<and> r' = fillna_numeric r)"
    by (auto simp: load_data_def fillna_numeric_cells)
  show "\<forall>r. Total_Matches (fillna_numeric r) = Some (case Total_Matches r of None \<Rightarrow> 0 | Some v \<Rightarrow> v)
        \<and> Strike_Rate (fillna_numeric r) = Some (case Strike_Rate r of None \<Rightarrow> 0 | Some v \<Rightarrow> v)
        \<and> Economy_Rate (fillna_numeric r) = Some (case Economy_Rate r of None \<Rightarrow> 0 | Some v \<Rightarrow> v)
        \<and> Predicted_Fantasy_Score (fillna_numeric r) =
            Some (case Predicted_Fantasy_Score r of None \<Rightarrow> 0 | Some v \<Rightarrow> v)
        \<and> player_name (fillna_numeric r) = player_name r
        \<and> Team_2025 (fillna_numeric r) = Team_2025 r
        \<and> Role (fillna_numeric r) = Role r"
    by (simp add: fillna_numeric_cells)
  show "\<forall>p \<in> set (load_data csv).
        Total_Matches p \<noteq> None \<and> Strike_Rate p \<noteq> None \<and> Economy_Rate p \<noteq> None
        \<and> Predicted_Fantasy_Score p \<noteq> None \<and> Team_2025 p \<noteq> Some ''-''"
    by (auto simp: load_data_def fillna_numeric_cells)
qed

theorem load_data_fills_and_drops_witness:
  "fillna_numeric csv_c \<in> set (load_data [csv_a, csv_b, csv_c])
   \<and> fillna_numeric csv_b \<notin> set (load_data [csv_a, csv_b, csv_c])
   \<and> Total_Matches (fillna_numeric csv_c) = Some 0
   \<and> Strike_Rate (fillna_numeric csv_c) = Some 130
   \<and> Economy_Rate (fillna_numeric csv_c) = Some 0
   \<and> Predicted_Fantasy_Score (fillna_numeric csv_c) = Some (- 2)
   \<and> Team_2025 (fillna_numeric csv_c) \<noteq> Some ''-''
   \<and> Role (fillna_numeric csv_c) = None"
  using load_data_fills_and_drops [of "fillna_numeric csv_c" "[csv_a, csv_b, csv_c]"]
    load_data_fills_and_drops [of "fillna_numeric csv_b" "[csv_a, csv_b, csv_c]"]
  by (simp add: csv_a_def csv_b_def csv_c_def fillna_numeric_def fillna_def)

section \<open>The filter\<close>

text \<open>
  Claim C4. A row is retained by the filter if and only if it is a row of the dataset
  with \<open>matches \<ge> min_matches\<close>, \<open>strike_rate \<ge> min_sr\<close>, \<open>economy_rate \<le> max_econ\<close> and
  (the team subset is empty or its team is in the subset). The result is the dataset
  with rows left out, in the same order; it is a list, possibly empty, and no error.
\<close>

theorem filtered_df_retains_iff:
  "(p \<in> set (filtered_df df selected_teams min_matches min_sr max_econ) \<longleftrightarrow>
      p \<in> set df
      \<and> of_int min_matches \<le> Total_Matches p
      \<and> min_sr \<le> Strike_Rate p
      \<and> Economy_Rate p \<le> max_econ
      \<and> (selected_teams = [] \<or> (\<exists>t \<in> set selected_teams. Team_2025 p = Some t)))
   \<and> subseq (filtered_df df selected_teams min_matches min_sr max_econ) df"
proof
  show "p \<in> set (filtered_df df selected_teams min_matches min_sr max_econ) \<longleftrightarrow>
      p \<in> set df
      \<and> of_int min_matches \<le> Total_Matches p
      \<and> min_sr \<le> Strike_Rate p
      \<and> Economy_Rate p \<le> max_econ
      \<and> (selected_teams = [] \<or> (\<exists>t \<in> set selected_teams. Team_2025 p = Some t))"
    by (auto simp: filtered_df_def Let_def isin_def split: option.splits)
  show "subseq (filtered_df df selected_teams min_matches min_sr max_econ) df"
    by (auto simp: filtered_df_def Let_def intro: subseq_order.trans)
qed

theorem filtered_df_retains_iff_witness:
  "sample ''A'' ''WK'' 50 \<in> set (filtered_df [sample ''A'' ''WK'' 50] [''CSK''] 5 100 10)
   \<and> sample ''A'' ''WK'' 50 \<in> set (filtered_df [sample ''A'' ''WK'' 50] [] 10 120 8)
   \<and> sample ''A'' ''WK'' 50 \<notin> set (filtered_df [sample ''A'' ''WK'' 50] [''MI'', ''RR''] 5 100 10)
   \<and> sample ''A'' ''WK'' 50 \<notin> set (filtered_df [sample ''A'' ''WK'' 50] [] 11 100 10)"
  using filtered_df_retains_iff [of "sample ''A'' ''WK'' 50" "[sample ''A'' ''WK'' 50]" "[''CSK'']" 5 100 10]
    filtered_df_retains_iff [of "sample ''A'' ''WK'' 50" "[sample ''A'' ''WK'' 50]" "[]" 10 120 8]
    filtered_df_retains_iff [of "sample ''A'' ''WK'' 50" "[sample ''A'' ''WK'' 50]" "[''MI'', ''RR'']" 5 100 10]
    filtered_df_retains_iff [of "sample ''A'' ''WK'' 50" "[sample ''A'' ''WK'' 50]" "[]" 11 100 10]
  by (simp add: sample_def)

section \<open>The role classifier\<close>

lemma upper_char_letters:
  "map upper_char ''abcdefghijklmnopqrstuvwxyz'' = ''ABCDEFGHIJKLMNOPQRSTUVWXYZ''"
  by (simp add: upper_char_def)

lemma upper_char_other: "c \<notin> set ''abcdefghijklmnopqrstuvwxyz'' \<Longrightarrow> upper_char c = c"
  by (simp add: upper_char_def)

lemma letters_codes: "map char_of [97 ..< 123 :: nat] = ''abcdefghijklmnopqrstuvwxyz''"
  by code_simp

lemma letter_iff_code:
  "c \<in> set ''abcdefghijklmnopqrstuvwxyz'' \<longleftrightarrow> 97 \<le> (of_char c :: nat) \<and> (of_char c :: nat) \<le> 122"
proof
  assume "c \<in> set ''abcdefghijklmnopqrstuvwxyz''"
  then show "97 \<le> (of_char c :: nat) \<and> (of_char c :: nat) \<le> 122"
    by auto
next
  assume "97 \<le> (of_char c :: nat) \<and> (of_char c :: nat) \<le> 122"
  then have "(of_char c :: nat) \<in> {97 ..< 123}" by auto
  then have "(of_char c :: nat) \<in> set [97 ..< 123]" by (simp only: set_upt)
  then have "char_of (of_char c :: nat) \<in> set (map char_of [97 ..< 123 :: nat])"
    by (simp only: set_map) (rule imageI)
  then show "c \<in> set ''abcdefghijklmnopqrstuvwxyz''"
    by (simp only: letters_codes char_of_char)
qed

lemma upper_char_code:
  "(of_char (upper_char c) :: nat) =
     (if 97 \<le> (of_char c :: nat) \<and> (of_char c :: nat) \<le> 122 then of_char c - 32 else of_char c)"
proof (cases "c \<in> set ''abcdefghijklmnopqrstuvwxyz''")
  case True
  then show ?thesis by (auto simp: upper_char_def)
next
  case False
  then have "upper_char c = c"
    by (rule upper_char_other)
  moreover have "\<not> (97 \<le> (of_char c :: nat) \<and> (of_char c :: nat) \<le> 122)"
    using False letter_iff_code [of c] by blast
  ultimately show ?thesis by auto
qed

lemma starts_with_iff: "starts_with s k \<longleftrightarrow> (\<exists>ss. s = k @ ss)"
  by (induction s k rule: starts_with.induct) auto

lemma str_in_iff: "str_in k s \<longleftrightarrow> sublist k s"
proof (induction s)
  case Nil
  show ?case by simp
next
  case (Cons d s)
  have "sublist k (d # s) \<longleftrightarrow> prefix k (d # s) \<or> sublist k s"
    by (rule sublist_Cons_right)
  moreover have "starts_with (d # s) k \<longleftrightarrow> prefix k (d # s)"
    by (simp add: starts_with_iff prefix_def)
  ultimately show ?case using Cons.IH by simp
qed

lemma role_order_chain:
  "role_order (Some r) =
     Inr (if \<exists>k \<in> set (role_map WK). sublist k (upper r) then 1
          else if \<exists>k \<in> set (role_map BAT). sublist k (upper r) then 2
          else if \<exists>k \<in> set (role_map AR). sublist k (upper r) then 3
          else if \<exists>k \<in> set (role_map BOWL). sublist k (upper r) then 4
          else 99)"
  unfolding role_order_def bucket_order_def list_ex_iff str_in_iff
  by (simp del: role_map.simps)

lemma role_rows_iff:
  "p \<in> set (role_rows b df) \<longleftrightarrow>
     p \<in> set df \<and> (\<exists>r. Role p = Some r \<and> upper r \<in> set (role_map b))"
  by (auto simp: role_rows_def isin_def str_upper_def split: option.splits)

lemma role_rows_subset: "set (role_rows b fdf) \<subseteq> set fdf"
  by (auto simp: role_rows_def)

lemma role_rows_have_role: "p \<in> set (role_rows b fdf) \<Longrightarrow> Role p \<noteq> None"
  by (auto simp: role_rows_iff)

section \<open>The sort by role priority\<close>

lemma series_apply_Inr_iff: "series_apply f xs = Inr ys \<longleftrightarrow> map f xs = map Inr ys"
proof (induction xs arbitrary: ys)
  case Nil
  show ?case by auto
next
  case (Cons x xs)
  show ?case
  proof (cases "f x")
    case (Inl e)
    then show ?thesis by (cases ys) auto
  next
    case (Inr y)
    show ?thesis
    proof (cases "series_apply f xs")
      case (Inl e)
      with Cons.IH Inr show ?thesis by (cases ys) auto
    next
      case r: (Inr zs)
      with Cons.IH [of zs] Cons.IH Inr show ?thesis by (cases ys) auto
    qed
  qed
qed

lemma series_apply_role_order_missing:
  "None \<in> set cells \<Longrightarrow> series_apply role_order cells = Inl AttributeError"
proof (induction cells)
  case Nil
  then show ?case by simp
next
  case (Cons c cells)
  show ?case
  proof (cases c)
    case None
    then show ?thesis by (simp add: role_order_def)
  next
    case (Some r)
    with Cons show ?thesis by (simp add: role_order_def)
  qed
qed

lemma series_apply_role_order_present:
  "None \<notin> set cells \<Longrightarrow> \<exists>order. series_apply role_order cells = Inr order"
proof (induction cells)
  case Nil
  show ?case by simp
next
  case (Cons c cells)
  then obtain r order where "c = Some r" and o: "series_apply role_order cells = Inr order"
    by (cases c) auto
  then obtain k where "role_order c = Inr k"
    by (simp add: role_order_def)
  with o show ?case by simp
qed

lemma sort_role_order_missing:
  "p \<in> set team \<Longrightarrow> Role p = None \<Longrightarrow> sort_role_order np team = Inl AttributeError"
proof -
  assume "p \<in> set team" and "Role p = None"
  then have "None \<in> set (map Role team)" by force
  then show ?thesis
    by (simp add: sort_role_order_def series_apply_role_order_missing)
qed

lemma sort_role_order_present:
  "\<forall>p \<in> set team. Role p \<noteq> None \<Longrightarrow> \<exists>sorted_team. sort_role_order np team = Inr sorted_team"
proof -
  assume "\<forall>p \<in> set team. Role p \<noteq> None"
  then have "None \<notin> set (map Role team)" by auto
  then obtain order where "series_apply role_order (map Role team) = Inr order"
    using series_apply_role_order_present by blast
  then show ?thesis by (simp add: sort_role_order_def)
qed

lemma sort_role_order_Inr:
  assumes "is_argsort (argsort_int64 np)" and "sort_role_order np team = Inr sorted_team"
  shows "mset sorted_team = mset team"
    and "\<exists>order. map (\<lambda>p. role_order (Role p)) sorted_team = map Inr order \<and> sorted order"
proof -
  from assms(2) obtain order where o: "series_apply role_order (map Role team) = Inr order"
    and t: "sorted_team = map fst (sort_values (argsort_int64 np) snd (zip team order))"
    by (auto simp: sort_role_order_def split: sum.splits)
  let ?z = "zip team order"
  let ?s = "sort_values (argsort_int64 np) snd ?z"
  from o have m: "map role_order (map Role team) = map Inr order"
    by (simp only: series_apply_Inr_iff)
  then have len: "length team = length order"
    by (metis length_map)
  have ms: "mset ?s = mset ?z"
    by (rule mset_sort_values [OF assms(1)])
  have "mset (map fst ?s) = mset (map fst ?z)"
    using ms by (metis mset_map)
  then show "mset sorted_team = mset team"
    using len t by simp
  have pair: "role_order (Role p) = Inr k" if "(p, k) \<in> set ?z" for p k
  proof -
    from that obtain i where "i < length team" "team ! i = p" "order ! i = k"
      using len by (auto simp: in_set_zip)
    moreover from this m have "map role_order (map Role team) ! i = map Inr order ! i"
      by simp
    ultimately show ?thesis using len by simp
  qed
  have "set ?s = set ?z"
    by (rule set_sort_values [OF assms(1)])
  then have "\<forall>x \<in> set ?s. role_order (Role (fst x)) = Inr (snd x)"
    using pair by auto
  then have "map (\<lambda>p. role_order (Role p)) (map fst ?s) = map Inr (map snd ?s)"
    by simp
  moreover have "sorted (map snd ?s)"
    by (rule sorted_sort_values [OF assms(1)])
  ultimately show "\<exists>order. map (\<lambda>p. role_order (Role p)) sorted_team = map Inr order \<and> sorted order"
    using t by blast
qed

section \<open>Manual mode\<close>

lemma user_df_covers:
  assumes "set names \<subseteq> player_name ` set fdf"
  shows "card (set names) \<le> length (filter (\<lambda>p. player_name p \<in> set names) fdf)"
proof -
  have "set names \<subseteq> player_name ` set (filter (\<lambda>p. player_name p \<in> set names) fdf)"
    using assms by auto
  then have "card (set names) \<le> card (player_name ` set (filter (\<lambda>p. player_name p \<in> set names) fdf))"
    by (intro card_mono) auto
  also have "\<dots> \<le> card (set (filter (\<lambda>p. player_name p \<in> set names) fdf))"
    by (intro card_image_le) auto
  also have "\<dots> \<le> length (filter (\<lambda>p. player_name p \<in> set names) fdf)"
    by (rule card_length)
  finally show ?thesis .
qed

lemma chosen_in_pool:
  assumes "set chosen_wk \<subseteq> player_name ` set (role_rows WK fdf)"
    and "set chosen_bat \<subseteq> player_name ` set (role_rows BAT fdf)"
    and "set chosen_ar \<subseteq> player_name ` set (role_rows AR fdf)"
    and "set chosen_bowl \<subseteq> player_name ` set (role_rows BOWL fdf)"
  shows "set (chosen_wk @ chosen_bat @ chosen_ar @ chosen_bowl) \<subseteq> player_name ` set fdf"
proof -
  have "set c \<subseteq> player_name ` set fdf"
    if "set c \<subseteq> player_name ` set (role_rows b fdf)" for b c
    using that role_rows_subset [of b fdf] by (meson image_mono subset_trans)
  with assms show ?thesis by simp
qed

text \<open>
  A tab offers only rows that have a role text. So, when the names of the pool are
  pairwise distinct, every row matching a chosen name has one.
\<close>

lemma chosen_rows_have_role:
  assumes "distinct (map player_name fdf)"
    and "set chosen_wk \<subseteq> player_name ` set (role_rows WK fdf)"
    and "set chosen_bat \<subseteq> player_name ` set (role_rows BAT fdf)"
    and "set chosen_ar \<subseteq> player_name ` set (role_rows AR fdf)"
    and "set chosen_bowl \<subseteq> player_name ` set (role_rows BOWL fdf)"
  shows "\<forall>p \<in> set fdf. player_name p \<in> set (chosen_wk @ chosen_bat @ chosen_ar @ chosen_bowl)
           \<longrightarrow> Role p \<noteq> None"
proof (intro ballI impI)
  fix p assume p: "p \<in> set fdf"
    and "player_name p \<in> set (chosen_wk @ chosen_bat @ chosen_ar @ chosen_bowl)"
  with assms(2-5) obtain b q where q: "q \<in> set (role_rows b fdf)" "player_name q = player_name p"
    by auto
  have inj: "inj_on player_name (set fdf)"
    using assms(1) by (simp add: distinct_map)
  have "q \<in> set fdf" using q(1) role_rows_subset by blast
  with inj p q(2) have "q = p" by (auto dest: inj_onD)
  with q(1) show "Role p \<noteq> None" by (auto dest: role_rows_have_role)
qed

lemma manual_summary_shown:
  assumes "numpy_ok np" and "user_df \<noteq> []" and "\<forall>p \<in> set user_df. Role p \<noteq> None"
  shows "\<exists>table order.
           manual_summary np user_df =
             Inr [St_dataframe table,
                  St_info (sum_list (map Predicted_Fantasy_Score user_df))
                    (sum_list (map Predicted_Fantasy_Score user_df) / real (length user_df))]
           \<and> mset table = mset user_df
           \<and> map (\<lambda>p. role_order (Role p)) table = map Inr order \<and> sorted order"
proof -
  have a: "is_argsort (argsort_int64 np)"
    using assms(1) by (simp add: numpy_ok_def)
  from assms(3) obtain table where t: "sort_role_order np user_df = Inr table"
    using sort_role_order_present by blast
  have m: "mset table = mset user_df"
    using a t by (rule sort_role_order_Inr)
  then have "length table = length user_df"
    by (rule mset_eq_length)
  moreover have "sum_list (map Predicted_Fantasy_Score table) =
                 sum_list (map Predicted_Fantasy_Score user_df)"
    using m by (rule sum_list_mset_cong)
  ultimately have "manual_summary np user_df =
             Inr [St_dataframe table,
                  St_info (sum_list (map Predicted_Fantasy_Score user_df))
                    (sum_list (map Predicted_Fantasy_Score user_df) / real (length user_df))]"
    using assms(2) t by (simp add: manual_summary_def Let_def)
  with m sort_role_order_Inr(2) [OF a t] show ?thesis by blast
qed

text \<open>
  Claim C1, as the code has it. Each tab offers the names of its own rows. When more than
  11 distinct names are chosen, the block shows the error with the number of chosen names,
  keeps the first 11 matching rows of the filtered view (line 127) and, when the optimize
  button is not pressed and each of these rows has a role text, goes on to the summary
  of those 11 rows: a table that holds exactly these rows in ascending order of role
  priority, their total and that total divided by 11. This holds for every sort routine.
\<close>

theorem manual_overflow_truncates_and_scores:
  assumes "numpy_ok np"
    and "set chosen_wk \<subseteq> player_name ` set (role_rows WK fdf)"
    and "set chosen_bat \<subseteq> player_name ` set (role_rows BAT fdf)"
    and "set chosen_ar \<subseteq> player_name ` set (role_rows AR fdf)"
    and "set chosen_bowl \<subseteq> player_name ` set (role_rows BOWL fdf)"
    and "11 < card (set (chosen_wk @ chosen_bat @ chosen_ar @ chosen_bowl))"
    and "kept = take 11 (filter (\<lambda>p. player_name p
                  \<in> set (chosen_wk @ chosen_bat @ chosen_ar @ chosen_bowl)) fdf)"
    and "\<forall>p \<in> set kept. Role p \<noteq> None"
  shows "length kept = 11
         \<and> (\<exists>table order.
              tab_summary np fdf chosen_wk chosen_bat chosen_ar chosen_bowl False =
                Inr [St_error (card (set (chosen_wk @ chosen_bat @ chosen_ar @ chosen_bowl))),
                     St_write 11,
                     St_dataframe table,
                     St_info (sum_list (map Predicted_Fantasy_Score kept))
                       (sum_list (map Predicted_Fantasy_Score kept) / 11)]
              \<and> mset table = mset kept
              \<and> map (\<lambda>p. role_order (Role p)) table = map Inr order \<and> sorted order)"
proof -
  let ?names = "chosen_wk @ chosen_bat @ chosen_ar @ chosen_bowl"
  let ?user_df = "filter (\<lambda>p. player_name p \<in> set ?names) fdf"
  have len: "length (remdups ?names) = card (set ?names)"
    by (simp add: length_remdups_card_conv)
  have "set ?names \<subseteq> player_name ` set fdf"
    using assms(2-5) by (rule chosen_in_pool)
  then have "card (set ?names) \<le> length ?user_df"
    by (rule user_df_covers)
  with assms(6) have "11 < length ?user_df" by linarith
  then have k: "length kept = 11"
    using assms(7) by simp
  then have ne: "kept \<noteq> []" by auto
  have over: "11 < length (remdups ?names)"
    using assms(6) len by linarith
  from manual_summary_shown [OF assms(1) ne assms(8)] obtain table order
    where s: "manual_summary np kept =
             Inr [St_dataframe table,
                  St_info (sum_list (map Predicted_Fantasy_Score kept))
                    (sum_list (map Predicted_Fantasy_Score kept) / real (length kept))]"
      and t: "mset table = mset kept"
        "map (\<lambda>p. role_order (Role p)) table = map Inr order" "sorted order"
    by blast
  have "tab_summary np fdf chosen_wk chosen_bat chosen_ar chosen_bowl False =
          (case manual_summary np kept of
             Inl e \<Rightarrow> Inl e
           | Inr summary \<Rightarrow>
               Inr (([St_error (length (remdups ?names))] @ [St_write (length kept)]) @ summary))"
    unfolding tab_summary_def Let_def set_remdups if_P [OF over] if_False assms(7)
    by (rule refl)
  then have "tab_summary np fdf chosen_wk chosen_bat chosen_ar chosen_bowl False =
      Inr [St_error (card (set ?names)), St_write 11, St_dataframe table,
           St_info (sum_list (map Predicted_Fantasy_Score kept))
             (sum_list (map Predicted_Fantasy_Score kept) / 11)]"
    using s k len by simp
  with k t show ?thesis by blast
qed

theorem manual_overflow_truncates_and_scores_witness:
  "numpy_ok np_backward
   \<and> set [] \<subseteq> player_name ` set (role_rows WK overflow_pool)
   \<and> set (map player_name overflow_pool) \<subseteq> player_name ` set (role_rows BAT overflow_pool)
   \<and> set [] \<subseteq> player_name ` set (role_rows AR overflow_pool)
   \<and> set [] \<subseteq> player_name ` set (role_rows BOWL overflow_pool)
   \<and> 11 < card (set ([] @ map player_name overflow_pool @ [] @ []))
   \<and> None \<notin> Role ` set (take 11 overflow_pool)
   \<and> length (take 11 overflow_pool) = 11
   \<and> (\<exists>table order.
         tab_summary np_backward overflow_pool [] (map player_name overflow_pool) [] [] False =
           Inr [St_error 12, St_write 11, St_dataframe table, St_info 66 (66 / 11)]
         \<and> mset table = mset (take 11 overflow_pool)
         \<and> map (\<lambda>p. role_order (Role p)) table = map Inr order \<and> sorted order)"
proof -
  have wk: "set [] \<subseteq> player_name ` set (role_rows WK overflow_pool)"
    and ar: "set [] \<subseteq> player_name ` set (role_rows AR overflow_pool)"
    and bowl: "set [] \<subseteq> player_name ` set (role_rows BOWL overflow_pool)"
    by simp_all
  have bat: "set (map player_name overflow_pool) \<subseteq> player_name ` set (role_rows BAT overflow_pool)"
    by (simp add: overflow_pool_def sample_def role_rows_def isin_def str_upper_def
        upper_def upper_char_def)
  have c: "card (set ([] @ map player_name overflow_pool @ [] @ [])) = 12"
    by (simp add: overflow_pool_def sample_def)
  then have over: "11 < card (set ([] @ map player_name overflow_pool @ [] @ []))"
    by simp
  have kept: "take 11 overflow_pool =
     take 11 (filter (\<lambda>p. player_name p \<in> set ([] @ map player_name overflow_pool @ [] @ []))
       overflow_pool)"
    by simp
  have roles: "\<forall>p \<in> set (take 11 overflow_pool). Role p \<noteq> None"
    by (simp add: overflow_pool_def sample_def)
  then have roles': "None \<notin> Role ` set (take 11 overflow_pool)"
    by force
  have total: "sum_list (map Predicted_Fantasy_Score (take 11 overflow_pool)) = 66"
    by (simp add: overflow_pool_def sample_def)
  show ?thesis
    using manual_overflow_truncates_and_scores
      [OF numpy_ok_backward wk bat ar bowl over kept roles]
      numpy_ok_backward wk bat ar bowl over roles'
    unfolding total c by (simp only: simp_thms)
qed

text \<open>
  Claim C1 as stated fails: with twelve batters, all twelve chosen in the batters' tab,
  the error is shown and eleven rows are scored all the same, total 66 and average 6.
  The twelve rows have one role priority, so the order of the table is the sort
  routine's: the two sample routines give the first eleven rows forwards and backwards.
\<close>

theorem manual_overflow_is_scored:
  "tab_summary np_insertion overflow_pool [] (map player_name overflow_pool) [] [] False =
     Inr [St_error 12, St_write 11, St_dataframe (take 11 overflow_pool), St_info 66 6]
   \<and> tab_summary np_backward overflow_pool [] (map player_name overflow_pool) [] [] False =
     Inr [St_error 12, St_write 11, St_dataframe (rev (take 11 overflow_pool)), St_info 66 6]"
  by code_simp



section \<open>Automatic mode: assembling the roster\<close>

lemma add_best_eq:
  "is_argsort (argsort_float64 np) \<Longrightarrow> add_best np fdf auto_team b = auto_team @ best_of np fdf b"
  by (cases "role_rows b fdf") (simp_all add: add_best_def best_of_def Let_def sort_values_desc_Nil)

lemma best_per_role_eq:
  "is_argsort (argsort_float64 np) \<Longrightarrow>
     best_per_role np fdf = best_of np fdf WK @ best_of np fdf BAT @ best_of np fdf AR @ best_of np fdf BOWL"
  by (simp add: best_per_role_def bucket_order_def add_best_eq)

lemma best_of_subset:
  "is_argsort (argsort_float64 np) \<Longrightarrow> set (best_of np fdf b) \<subseteq> set (role_rows b fdf)"
  unfolding best_of_def using set_take_subset [of 1] by (metis set_sort_values_desc)

lemma best_of_distinct: "distinct (best_of np fdf b)"
  by (cases "sort_values_desc (argsort_float64 np) Predicted_Fantasy_Score (role_rows b fdf)")
    (simp_all add: best_of_def)

lemma role_map_disjoint: "k \<in> set (role_map b) \<Longrightarrow> k \<in> set (role_map b') \<Longrightarrow> b = b'"
  by (cases b; cases b'; auto)

lemma role_rows_disjoint: "b \<noteq> b' \<Longrightarrow> set (role_rows b fdf) \<inter> set (role_rows b' fdf) = {}"
  using role_map_disjoint [of _ b b'] by (auto simp: role_rows_iff)

lemma best_of_disjoint:
  "is_argsort (argsort_float64 np) \<Longrightarrow> b \<noteq> b' \<Longrightarrow> set (best_of np fdf b) \<inter> set (best_of np fdf b') = {}"
  using best_of_subset [of np fdf b] best_of_subset [of np fdf b'] role_rows_disjoint [of b b' fdf]
  by blast

lemma best_per_role_distinct:
  "is_argsort (argsort_float64 np) \<Longrightarrow> distinct (best_per_role np fdf)"
  by (simp add: best_per_role_eq best_of_distinct best_of_disjoint Int_Un_distrib Int_Un_distrib2)

lemma best_per_role_subset:
  "is_argsort (argsort_float64 np) \<Longrightarrow> set (best_per_role np fdf) \<subseteq> set fdf"
  using best_of_subset [of np fdf] role_rows_subset [of _ fdf]
  by (auto simp: best_per_role_eq)

lemma add_best_length: "length (add_best np fdf auto_team b) \<le> Suc (length auto_team)"
  by (simp add: add_best_def Let_def)

lemma best_per_role_length: "length (best_per_role np fdf) \<le> 4"
proof -
  let ?a = "add_best np fdf [] WK"
  let ?b = "add_best np fdf ?a BAT"
  let ?c = "add_best np fdf ?b AR"
  have "length ?a \<le> 1" using add_best_length [of np fdf "[]" WK] by simp
  then have "length ?b \<le> 2" using add_best_length [of np fdf ?a BAT] by simp
  then have "length ?c \<le> 3" using add_best_length [of np fdf ?b AR] by simp
  then have "length (add_best np fdf ?c BOWL) \<le> 4"
    using add_best_length [of np fdf ?c BOWL] by simp
  then show ?thesis by (simp add: best_per_role_def bucket_order_def)
qed

lemma length_filter_out:
  assumes "distinct xs" and "distinct ys" and "set ys \<subseteq> set xs"
  shows "length (filter (\<lambda>x. x \<notin> set ys) xs) = length xs - length ys"
proof -
  have "length (filter (\<lambda>x. x \<in> set ys) xs) = card ({x. x \<in> set ys} \<inter> set xs)"
    using assms(1) by (rule distinct_length_filter)
  also have "{x. x \<in> set ys} \<inter> set xs = set ys"
    using assms(3) by auto
  also have "card (set ys) = length ys"
    using assms(2) by (rule distinct_card)
  finally have "length (filter (\<lambda>x. x \<in> set ys) xs) = length ys" .
  moreover have "length (filter (\<lambda>x. x \<in> set ys) xs) + length (filter (\<lambda>x. \<not> x \<in> set ys) xs) = length xs"
    by (rule sum_length_filter_compl)
  ultimately show ?thesis by simp
qed

text \<open>
  The assembly fails exactly when no row of the pool has a role that is literally one of
  the keywords; otherwise, on a pool with distinct names, the assembled roster has
  \<open>min 11 (length fdf)\<close> rows.
\<close>

lemma best_per_role_no_rows:
  "\<forall>b. role_rows b fdf = [] \<Longrightarrow> best_per_role np fdf = []"
  by (simp add: best_per_role_def bucket_order_def add_best_def)

lemma best_per_role_empty_iff:
  assumes "is_argsort (argsort_float64 np)"
  shows "best_per_role np fdf = [] \<longleftrightarrow>
           (\<forall>p \<in> set fdf. \<forall>b. \<not> isin (str_upper (Role p)) (role_map b))"
proof -
  have "sort_values_desc (argsort_float64 np) Predicted_Fantasy_Score (role_rows b fdf) = []
          \<longleftrightarrow> role_rows b fdf = []" for b
    using length_sort_values_desc [OF assms, of Predicted_Fantasy_Score "role_rows b fdf"]
    by (metis length_0_conv)
  then have "best_of np fdf b = [] \<longleftrightarrow> role_rows b fdf = []" for b
    by (simp add: best_of_def)
  then have "best_per_role np fdf = [] \<longleftrightarrow> (\<forall>b. role_rows b fdf = [])"
    by (auto simp: best_per_role_eq [OF assms] intro: bucket.exhaust) (metis bucket.exhaust)
  then show ?thesis
    by (auto simp: role_rows_def filter_empty_conv)
qed

lemma assemble_KeyError_iff:
  "assemble np fdf = Inl e \<longleftrightarrow> e = KeyError \<and> best_per_role np fdf = []"
  using best_per_role_length [of np fdf]
  by (auto simp: assemble_def fill_remaining_def Let_def)

lemma remaining_eq:
  assumes "is_argsort (argsort_float64 np)" and "distinct (map player_name fdf)"
  shows "filter (\<lambda>p. player_name p \<notin> set (map player_name (best_per_role np fdf))) fdf =
         filter (\<lambda>p. p \<notin> set (best_per_role np fdf)) fdf"
proof (rule filter_cong [OF refl])
  fix p assume "p \<in> set fdf"
  moreover have "inj_on player_name (set fdf)"
    using assms(2) by (simp add: distinct_map)
  ultimately show "(player_name p \<notin> set (map player_name (best_per_role np fdf))) =
                   (p \<notin> set (best_per_role np fdf))"
    using best_per_role_subset [OF assms(1), of fdf] by (auto dest: inj_onD)
qed

lemma assemble_length:
  assumes "is_argsort (argsort_float64 np)"
    and "distinct (map player_name fdf)" and "best_per_role np fdf \<noteq> []"
  shows "\<exists>auto_team. assemble np fdf = Inr auto_team \<and> length auto_team = min 11 (length fdf)"
proof -
  let ?picks = "best_per_role np fdf"
  let ?remaining = "filter (\<lambda>p. player_name p \<notin> set (map player_name ?picks)) fdf"
  let ?add = "take (11 - length ?picks)
                (sort_values_desc (argsort_float64 np) Predicted_Fantasy_Score ?remaining)"
  have d: "distinct fdf"
    using assms(2) by (simp add: distinct_map)
  have sub: "set ?picks \<subseteq> set fdf" by (rule best_per_role_subset [OF assms(1)])
  have r: "length ?remaining = length fdf - length ?picks"
    unfolding remaining_eq [OF assms(1,2)]
    by (rule length_filter_out [OF d best_per_role_distinct [OF assms(1)] sub])
  have k4: "length ?picks \<le> 4" by (rule best_per_role_length)
  have kn: "length ?picks \<le> length fdf"
    using sub best_per_role_distinct [OF assms(1)] d
    by (metis card_mono distinct_card List.finite_set)
  have "assemble np fdf = Inr (?picks @ ?add)"
    using k4 assms(3) by (simp add: assemble_def fill_remaining_def Let_def)
  moreover have "length (?picks @ ?add) = min 11 (length fdf)"
    using k4 kn r by (simp add: length_sort_values_desc [OF assms(1)])
  ultimately show ?thesis by blast
qed

text \<open>A pool in which exactly one wicketkeeper and one bowler have a keyword for role.\<close>

lemma assemble_two_picks:
  assumes "is_argsort (argsort_float64 np)"
    and "role_rows WK fdf = [w]" and "role_rows BAT fdf = []"
    and "role_rows AR fdf = []" and "role_rows BOWL fdf = [b]"
    and "filter (\<lambda>p. player_name p \<notin> set (map player_name [w, b])) fdf = others"
    and "length others \<le> 9"
  shows "\<exists>rest. assemble np fdf = Inr ([w, b] @ rest) \<and> mset rest = mset others"
proof -
  have picks: "best_per_role np fdf = [w, b]"
    using assms(1-5)
    by (simp add: best_per_role_def bucket_order_def add_best_def sort_values_desc_single)
  let ?rest = "sort_values_desc (argsort_float64 np) Predicted_Fantasy_Score others"
  have "length ?rest \<le> 9"
    using assms(7) by (simp add: length_sort_values_desc [OF assms(1)])
  then have "assemble np fdf = Inr ([w, b] @ ?rest)"
    unfolding assemble_def fill_remaining_def picks Let_def assms(6) by simp
  moreover have "mset ?rest = mset others"
    by (rule mset_sort_values_desc [OF assms(1)])
  ultimately show ?thesis by blast
qed

text \<open>
  Claim C5, at the inputs where the code departs from it. On the empty pool, and on a pool
  of two players whose roles (\<open>Batsman\<close>, \<open>Allrounder\<close>) are not literally keywords, no
  bucket contributes a row, and line 146 reads the column \<^verbatim>\<open>player_name\<close> of a frame
  without columns: the assembly raises \<^verbatim>\<open>KeyError\<close> where the claim gives a roster of
  0 and of 2 rows. No sort is reached, so this holds for every sort routine.
\<close>

theorem assemble_fails_without_exact_role:
  "assemble np [] = Inl KeyError
   \<and> assemble np [sample ''A'' ''Batsman'' 50, sample ''B'' ''Allrounder'' 40] = Inl KeyError
   \<and> optimize_xi np [sample ''A'' ''Batsman'' 50, sample ''B'' ''Allrounder'' 40] = Inl KeyError"
proof -
  have "\<forall>b. role_rows b [] = []"
    by (simp add: role_rows_def)
  then have 1: "assemble np [] = Inl KeyError"
    by (simp add: assemble_KeyError_iff best_per_role_no_rows)
  have "role_rows b [sample ''A'' ''Batsman'' 50, sample ''B'' ''Allrounder'' 40] = []" for b
    by (cases b) (simp_all add: role_rows_def sample_def isin_def str_upper_def upper_def upper_char_def)
  then have 2: "assemble np [sample ''A'' ''Batsman'' 50, sample ''B'' ''Allrounder'' 40] = Inl KeyError"
    by (simp add: assemble_KeyError_iff best_per_role_no_rows)
  from 1 2 show ?thesis by (simp add: optimize_xi_def)
qed

section \<open>Automatic mode: designations and summary\<close>

lemma length_team_roles [simp]: "length team_roles = 11"
  by (simp add: team_roles_def)

lemma assign_team_role_Inr:
  "assign_team_role team = Inr shown \<longleftrightarrow>
     length team = 11 \<and> shown = zip team team_roles"
  by (auto simp: assign_team_role_def)

lemma assign_team_role_Inl:
  "assign_team_role team = Inl e \<longleftrightarrow> length team \<noteq> 11 \<and> e = ValueError"
  by (auto simp: assign_team_role_def)

lemma team_roles_nth:
  "i < 11 \<Longrightarrow> team_roles ! i =
     (if i = 0 then ''Captain'' else if i = 1 then ''Vice Captain'' else ''Player'')"
  by (simp add: team_roles_def del: upt.simps)

lemma show_team_Inr:
  assumes "is_argsort (argsort_float64 np)" and "show_team np team = Inr shown"
  shows "length team = 11"
    and "shown = [St_success,
           St_dataframe_auto
             (zip (sort_values_desc (argsort_float64 np) Predicted_Fantasy_Score team) team_roles),
           auto_info (sort_values_desc (argsort_float64 np) Predicted_Fantasy_Score team)]"
  using assms(2) length_sort_values_desc [OF assms(1), of Predicted_Fantasy_Score team]
  by (auto simp: show_team_def assign_team_role_def Let_def split: if_splits)

lemma show_team_short:
  assumes "is_argsort (argsort_float64 np)" and "length team \<noteq> 11"
  shows "show_team np team = Inl ValueError"
  using assms(2) length_sort_values_desc [OF assms(1), of Predicted_Fantasy_Score team]
  by (simp add: show_team_def assign_team_role_def Let_def)

text \<open>The pool of one wicketkeeper.\<close>

lemma solo_assemble:
  assumes "is_argsort (argsort_float64 np)"
  shows "assemble np [sample ''Solo'' ''WK'' 50] = Inr [sample ''Solo'' ''WK'' 50]"
proof -
  have "role_rows WK [sample ''Solo'' ''WK'' 50] = [sample ''Solo'' ''WK'' 50]"
    and "role_rows BAT [sample ''Solo'' ''WK'' 50] = []"
    and "role_rows AR [sample ''Solo'' ''WK'' 50] = []"
    and "role_rows BOWL [sample ''Solo'' ''WK'' 50] = []"
    by (simp_all add: role_rows_def sample_def isin_def str_upper_def upper_def upper_char_def)
  then have "best_per_role np [sample ''Solo'' ''WK'' 50] = [sample ''Solo'' ''WK'' 50]"
    using assms
    by (simp add: best_per_role_def bucket_order_def add_best_def sort_values_desc_single)
  then show ?thesis
    using assms
    by (simp add: assemble_def fill_remaining_def Let_def sort_values_desc_Nil)
qed

lemma solo_sort_role_order:
  assumes "is_argsort (argsort_int64 np)"
  shows "sort_role_order np [sample ''Solo'' ''WK'' 50] = Inr [sample ''Solo'' ''WK'' 50]"
proof -
  have "role_order (Role (sample ''Solo'' ''WK'' 50)) = Inr 1"
    by (simp add: sample_def role_order_def bucket_order_def upper_def upper_char_def)
  then show ?thesis
    using assms by (simp add: sort_role_order_def sort_values_single)
qed

text \<open>
  Claim C2, at an input where the code departs from it. A pool of one wicketkeeper gives
  a roster of one row; line 161 assigns a list of 11 labels to it, which raises
  \<^verbatim>\<open>ValueError\<close>, where the claim gives that row the label Captain. This holds for
  every sort routine.
\<close>

theorem designation_fails_below_11:
  assumes "numpy_ok np"
  shows "assign_team_role [sample ''Solo'' ''WK'' 50] = Inl ValueError
         \<and> tab_summary np [sample ''Solo'' ''WK'' 50] [] [] [] [] True = Inl ValueError"
proof -
  have f: "is_argsort (argsort_float64 np)" and i: "is_argsort (argsort_int64 np)"
    using assms by (simp_all add: numpy_ok_def)
  have "optimize_xi np [sample ''Solo'' ''WK'' 50] = Inl ValueError"
    by (simp add: optimize_xi_def solo_assemble [OF f] solo_sort_role_order [OF i]
        show_team_short [OF f])
  then show ?thesis
    by (simp add: tab_summary_def assign_team_role_def)
qed

theorem designation_fails_below_11_witness:
  "numpy_ok np_insertion
   \<and> assign_team_role [sample ''Solo'' ''WK'' 50] = Inl ValueError
   \<and> tab_summary np_insertion [sample ''Solo'' ''WK'' 50] [] [] [] [] True = Inl ValueError"
  using designation_fails_below_11 [OF numpy_ok_insertion] numpy_ok_insertion by simp

text \<open>
  Claim C3, at an input where the code departs from it. For the roster of one row with
  score 50 the automatic mode stops at line 161 and reports no average; line 180 itself
  divides the total by the constant 11 (50 / 11 on this roster), where the manual mode
  divides by the number of rows (50 / 1). This holds for every sort routine.
\<close>

theorem auto_average_not_reached_or_by_11:
  assumes "numpy_ok np"
  shows "assemble np [sample ''Solo'' ''WK'' 50] = Inr [sample ''Solo'' ''WK'' 50]
         \<and> optimize_xi np [sample ''Solo'' ''WK'' 50] = Inl ValueError
         \<and> auto_info [sample ''Solo'' ''WK'' 50] = St_info 50 (50 / 11)
         \<and> manual_summary np [sample ''Solo'' ''WK'' 50] =
             Inr [St_dataframe [sample ''Solo'' ''WK'' 50], St_info 50 50]"
proof -
  have f: "is_argsort (argsort_float64 np)" and i: "is_argsort (argsort_int64 np)"
    using assms by (simp_all add: numpy_ok_def)
  have "optimize_xi np [sample ''Solo'' ''WK'' 50] = Inl ValueError"
    by (simp add: optimize_xi_def solo_assemble [OF f] solo_sort_role_order [OF i]
        show_team_short [OF f])
  moreover have "auto_info [sample ''Solo'' ''WK'' 50] = St_info 50 (50 / 11)"
    by (simp add: auto_info_def sample_def)
  moreover have "manual_summary np [sample ''Solo'' ''WK'' 50] =
             Inr [St_dataframe [sample ''Solo'' ''WK'' 50], St_info 50 50]"
    by (simp add: manual_summary_def solo_sort_role_order [OF i]) (simp add: sample_def)
  ultimately show ?thesis
    using solo_assemble [OF f] by simp
qed

theorem auto_average_not_reached_or_by_11_witness:
  "numpy_ok np_backward
   \<and> assemble np_backward [sample ''Solo'' ''WK'' 50] = Inr [sample ''Solo'' ''WK'' 50]
   \<and> optimize_xi np_backward [sample ''Solo'' ''WK'' 50] = Inl ValueError
   \<and> auto_info [sample ''Solo'' ''WK'' 50] = St_info 50 (50 / 11)
   \<and> manual_summary np_backward [sample ''Solo'' ''WK'' 50] =
       Inr [St_dataframe [sample ''Solo'' ''WK'' 50], St_info 50 50]"
  using auto_average_not_reached_or_by_11 [OF numpy_ok_backward] numpy_ok_backward by simp

text \<open>
  Claim C8. Whenever the automatic mode shows a roster, its rows are in non-ascending
  order of predicted score, for every sort routine.
\<close>

theorem auto_roster_non_ascending:
  assumes "numpy_ok np"
    and "tab_summary np fdf chosen_wk chosen_bat chosen_ar chosen_bowl True = Inr shown"
    and "St_dataframe_auto team \<in> set shown"
  shows "sorted_wrt (\<lambda>a b. Predicted_Fantasy_Score a \<ge> Predicted_Fantasy_Score b) (map fst team)"
proof -
  have f: "is_argsort (argsort_float64 np)"
    using assms(1) by (simp add: numpy_ok_def)
  from assms(2) obtain pre auto_shown where o: "optimize_xi np fdf = Inr auto_shown"
    and s: "shown = pre @ auto_shown" and p: "\<forall>t. St_dataframe_auto t \<notin> set pre"
    by (auto simp: tab_summary_def Let_def split: sum.splits if_splits)
  from o obtain auto_team where "show_team np auto_team = Inr auto_shown"
    by (auto simp: optimize_xi_def split: sum.splits)
  from show_team_Inr [OF f this]
  have l: "length auto_team = 11"
    and a: "auto_shown = [St_success,
           St_dataframe_auto
             (zip (sort_values_desc (argsort_float64 np) Predicted_Fantasy_Score auto_team) team_roles),
           auto_info (sort_values_desc (argsort_float64 np) Predicted_Fantasy_Score auto_team)]"
    by blast+
  from assms(3) s p a
  have "team = zip (sort_values_desc (argsort_float64 np) Predicted_Fantasy_Score auto_team) team_roles"
    by (auto simp: auto_info_def Let_def)
  then have "map fst team = sort_values_desc (argsort_float64 np) Predicted_Fantasy_Score auto_team"
    using l by (simp add: length_sort_values_desc [OF f])
  then show ?thesis by (simp add: sorted_sort_values_desc [OF f])
qed

theorem auto_roster_non_ascending_witness:
  "numpy_ok np_backward
   \<and> tab_summary np_backward tie_pool [] [] [] [] True =
       Inr [St_write 0, St_success,
            St_dataframe_auto
              [(sample ''Keeper One'' ''WK'' 20, ''Captain''),
               (sample ''Pacer'' ''Bowler'' 10, ''Vice Captain''),
               (sample ''Keeper Two'' ''WK'' 10, ''Player''),
               (sample ''Bat 8'' ''Batter'' 8, ''Player''),
               (sample ''Bat 7'' ''Batter'' 7, ''Player''),
               (sample ''Bat 6'' ''Batter'' 6, ''Player''),
               (sample ''Bat 5'' ''Batter'' 5, ''Player''),
               (sample ''Bat 4'' ''Batter'' 4, ''Player''),
               (sample ''Bat 3'' ''Batter'' 3, ''Player''),
               (sample ''Bat 2'' ''Batter'' 2, ''Player''),
               (sample ''Bat 1'' ''Batter'' 1, ''Player'')],
            St_info 76 (76 / 11)]
   \<and> sorted_wrt (\<lambda>a b. Predicted_Fantasy_Score a \<ge> Predicted_Fantasy_Score b)
        [sample ''Keeper One'' ''WK'' 20, sample ''Pacer'' ''Bowler'' 10,
         sample ''Keeper Two'' ''WK'' 10, sample ''Bat 8'' ''Batter'' 8,
         sample ''Bat 7'' ''Batter'' 7, sample ''Bat 6'' ''Batter'' 6,
         sample ''Bat 5'' ''Batter'' 5, sample ''Bat 4'' ''Batter'' 4,
         sample ''Bat 3'' ''Batter'' 3, sample ''Bat 2'' ''Batter'' 2,
         sample ''Bat 1'' ''Batter'' 1]"
proof -
  have shown: "tab_summary np_backward tie_pool [] [] [] [] True =
       Inr [St_write 0, St_success,
            St_dataframe_auto
              [(sample ''Keeper One'' ''WK'' 20, ''Captain''),
               (sample ''Pacer'' ''Bowler'' 10, ''Vice Captain''),
               (sample ''Keeper Two'' ''WK'' 10, ''Player''),
               (sample ''Bat 8'' ''Batter'' 8, ''Player''),
               (sample ''Bat 7'' ''Batter'' 7, ''Player''),
               (sample ''Bat 6'' ''Batter'' 6, ''Player''),
               (sample ''Bat 5'' ''Batter'' 5, ''Player''),
               (sample ''Bat 4'' ''Batter'' 4, ''Player''),
               (sample ''Bat 3'' ''Batter'' 3, ''Player''),
               (sample ''Bat 2'' ''Batter'' 2, ''Player''),
               (sample ''Bat 1'' ''Batter'' 1, ''Player'')],
            St_info 76 (76 / 11)]"
    by code_simp
  show ?thesis
    using auto_roster_non_ascending [OF numpy_ok_backward shown] shown numpy_ok_backward
    by simp
qed

section \<open>Automatic mode: the sort by role priority before the sort by score\<close>

text \<open>
  Claim C6, as the code has it. When the predicted scores of the assembled roster are
  pairwise distinct and each of its rows has a role text, the pipeline gives the same
  result with and without the sort by role priority of lines 154-158, for every sort
  routine.
\<close>

theorem role_sort_unobservable_for_distinct_scores:
  assumes "numpy_ok np"
    and "assemble np fdf = Inr auto_team"
    and "distinct (map Predicted_Fantasy_Score auto_team)"
    and "\<forall>p \<in> set auto_team. Role p \<noteq> None"
  shows "optimize_xi np fdf = optimize_xi_without_role_sort np fdf"
proof -
  have f: "is_argsort (argsort_float64 np)" and i: "is_argsort (argsort_int64 np)"
    using assms(1) by (simp_all add: numpy_ok_def)
  from assms(4) obtain by_role where r: "sort_role_order np auto_team = Inr by_role"
    using sort_role_order_present by blast
  have "mset by_role = mset auto_team"
    using i r by (rule sort_role_order_Inr)
  with f assms(3)
  have "sort_values_desc (argsort_float64 np) Predicted_Fantasy_Score by_role =
        sort_values_desc (argsort_float64 np) Predicted_Fantasy_Score auto_team"
    by (rule sort_values_desc_unique)
  then have "show_team np by_role = show_team np auto_team"
    by (simp add: show_team_def)
  then show ?thesis
    by (simp add: optimize_xi_def optimize_xi_without_role_sort_def assms(2) r)
qed

theorem role_sort_unobservable_for_distinct_scores_witness:
  "numpy_ok np_backward
   \<and> assemble np_backward spread_pool =
       Inr [sample ''Keeper One'' ''WK'' 20, sample ''Bat 8'' ''Batter'' 8,
            sample ''Pacer'' ''Bowler'' 11, sample ''Keeper Two'' ''WK'' 10,
            sample ''Bat 7'' ''Batter'' 7, sample ''Bat 6'' ''Batter'' 6,
            sample ''Bat 5'' ''Batter'' 5, sample ''Bat 4'' ''Batter'' 4,
            sample ''Bat 3'' ''Batter'' 3, sample ''Bat 2'' ''Batter'' 2,
            sample ''Bat 1'' ''Batter'' 1]
   \<and> distinct [20, 8, 11, 10, 7, 6, 5, 4, 3, 2, 1 :: real]
   \<and> sort_role_order np_backward
        [sample ''Keeper One'' ''WK'' 20, sample ''Bat 8'' ''Batter'' 8,
         sample ''Pacer'' ''Bowler'' 11, sample ''Keeper Two'' ''WK'' 10,
         sample ''Bat 7'' ''Batter'' 7, sample ''Bat 6'' ''Batter'' 6,
         sample ''Bat 5'' ''Batter'' 5, sample ''Bat 4'' ''Batter'' 4,
         sample ''Bat 3'' ''Batter'' 3, sample ''Bat 2'' ''Batter'' 2,
         sample ''Bat 1'' ''Batter'' 1] =
       Inr [sample ''Keeper Two'' ''WK'' 10, sample ''Keeper One'' ''WK'' 20,
            sample ''Bat 1'' ''Batter'' 1, sample ''Bat 2'' ''Batter'' 2,
            sample ''Bat 3'' ''Batter'' 3, sample ''Bat 4'' ''Batter'' 4,
            sample ''Bat 5'' ''Batter'' 5, sample ''Bat 6'' ''Batter'' 6,
            sample ''Bat 7'' ''Batter'' 7, sample ''Bat 8'' ''Batter'' 8,
            sample ''Pacer'' ''Bowler'' 11]
   \<and> optimize_xi np_backward spread_pool = optimize_xi_without_role_sort np_backward spread_pool"
proof -
  let ?team = "[sample ''Keeper One'' ''WK'' 20, sample ''Bat 8'' ''Batter'' 8,
            sample ''Pacer'' ''Bowler'' 11, sample ''Keeper Two'' ''WK'' 10,
            sample ''Bat 7'' ''Batter'' 7, sample ''Bat 6'' ''Batter'' 6,
            sample ''Bat 5'' ''Batter'' 5, sample ''Bat 4'' ''Batter'' 4,
            sample ''Bat 3'' ''Batter'' 3, sample ''Bat 2'' ''Batter'' 2,
            sample ''Bat 1'' ''Batter'' 1]"
  have a: "assemble np_backward spread_pool = Inr ?team"
    by code_simp
  have d: "distinct (map Predicted_Fantasy_Score ?team)"
    by (simp add: sample_def)
  have roles: "\<forall>p \<in> set ?team. Role p \<noteq> None"
    by (simp add: sample_def)
  have s: "sort_role_order np_backward ?team =
       Inr [sample ''Keeper Two'' ''WK'' 10, sample ''Keeper One'' ''WK'' 20,
            sample ''Bat 1'' ''Batter'' 1, sample ''Bat 2'' ''Batter'' 2,
            sample ''Bat 3'' ''Batter'' 3, sample ''Bat 4'' ''Batter'' 4,
            sample ''Bat 5'' ''Batter'' 5, sample ''Bat 6'' ''Batter'' 6,
            sample ''Bat 7'' ''Batter'' 7, sample ''Bat 8'' ''Batter'' 8,
            sample ''Pacer'' ''Bowler'' 11]"
    by code_simp
  have "distinct [20, 8, 11, 10, 7, 6, 5, 4, 3, 2, 1 :: real]"
    by simp
  then show ?thesis
    using role_sort_unobservable_for_distinct_scores [OF numpy_ok_backward a d roles]
      numpy_ok_backward a s
    by (simp only: simp_thms)
qed

text \<open>
  \<open>level_pool\<close>: the wicketkeeper and the bowler are the only rows whose role is a
  keyword, so the loop picks them, in this order, and the top-up adds the nine others.
\<close>

lemma level_pool_assemble:
  assumes "is_argsort (argsort_float64 np)"
  shows "\<exists>rest. assemble np level_pool =
                  Inr ([sample ''Keeper'' ''WK'' 5, sample ''Pacer'' ''Bowler'' 5] @ rest)
               \<and> mset rest = mset (drop 2 level_pool)"
proof (rule assemble_two_picks [OF assms])
  show "role_rows WK level_pool = [sample ''Keeper'' ''WK'' 5]"
    and "role_rows BAT level_pool = []"
    and "role_rows AR level_pool = []"
    and "role_rows BOWL level_pool = [sample ''Pacer'' ''Bowler'' 5]"
    by (simp_all add: level_pool_def role_rows_def sample_def isin_def str_upper_def
        upper_def upper_char_def)
  show "filter (\<lambda>p. player_name p
          \<notin> set (map player_name [sample ''Keeper'' ''WK'' 5, sample ''Pacer'' ''Bowler'' 5]))
          level_pool = drop 2 level_pool"
    by (simp add: level_pool_def sample_def)
  show "length (drop 2 level_pool) \<le> 9"
    by (simp add: level_pool_def)
qed

text \<open>
  On \<open>level_pool\<close> the sort by role priority stays observable, for every sort routine.
  The assembled roster has the bowler in second place, before nine rows of priority 1,
  so the sort by role priority changes it. All scores being equal, the sort by score
  is handed the same column of keys with and without that change and moves the rows in
  the same way: the two final rosters differ.
\<close>

lemma role_sort_observable_level_pool:
  assumes "numpy_ok np"
  shows "optimize_xi np level_pool \<noteq> optimize_xi_without_role_sort np level_pool"
proof -
  have f: "is_argsort (argsort_float64 np)" and i: "is_argsort (argsort_int64 np)"
    using assms by (simp_all add: numpy_ok_def)
  let ?keeper = "sample ''Keeper'' ''WK'' 5" and ?pacer = "sample ''Pacer'' ''Bowler'' 5"
  from level_pool_assemble [OF f] obtain rest
    where a: "assemble np level_pool = Inr ([?keeper, ?pacer] @ rest)"
      and m: "mset rest = mset (drop 2 level_pool)"
    by blast
  let ?team = "[?keeper, ?pacer] @ rest"
  have s: "set rest = set (drop 2 level_pool)"
    using m by (rule mset_eq_setD)
  have lr: "length rest = 9"
    using mset_eq_length [OF m] by (simp add: level_pool_def)
  have rest_order: "\<forall>p \<in> set rest. role_order (Role p) = Inr 1"
    unfolding s
    by (simp add: level_pool_def sample_def role_order_def bucket_order_def upper_def upper_char_def)
  have rest_score: "\<forall>p \<in> set rest. Predicted_Fantasy_Score p = 5"
    unfolding s by (simp add: level_pool_def sample_def)
  have pacer_order: "role_order (Role ?pacer) = Inr 4"
    and keeper_order: "role_order (Role ?keeper) = Inr 1"
    by (simp_all add: sample_def role_order_def bucket_order_def upper_def upper_char_def)
  have "\<forall>p \<in> set rest. Role p \<noteq> None"
    unfolding s by (simp add: level_pool_def sample_def)
  then have "\<forall>p \<in> set ?team. Role p \<noteq> None"
    by (simp add: sample_def)
  then obtain by_role where r: "sort_role_order np ?team = Inr by_role"
    using sort_role_order_present by blast
  have mb: "mset by_role = mset ?team"
    using i r by (rule sort_role_order_Inr)
  obtain order where o: "map (\<lambda>p. role_order (Role p)) by_role = map Inr order" "sorted order"
    using sort_role_order_Inr(2) [OF i r] by blast
  have differ: "by_role \<noteq> ?team"
  proof
    assume "by_role = ?team"
    with o(1) keeper_order pacer_order
    obtain ks where order: "order = 1 # 4 # ks"
      and ks: "map (\<lambda>p. role_order (Role p)) rest = map Inr ks"
      by (cases order; cases "tl order") auto
    from lr obtain p where "p \<in> set rest" by (cases rest) auto
    then have "Inr 1 \<in> set (map (\<lambda>p. role_order (Role p)) rest)"
      using rest_order by force
    then have "1 \<in> set ks" unfolding ks by auto
    with o(2) order show False by auto
  qed
  have score_team: "\<forall>p \<in> set ?team. Predicted_Fantasy_Score p = 5"
    using rest_score by (simp add: sample_def)
  moreover have "set by_role = set ?team"
    using mb by (rule mset_eq_setD)
  ultimately have "\<forall>p \<in> set by_role. Predicted_Fantasy_Score p = 5"
    by blast
  then have "map Predicted_Fantasy_Score by_role = replicate (length by_role) 5"
    by (rule map_const)
  moreover have "map Predicted_Fantasy_Score ?team = replicate (length ?team) 5"
    using score_team by (rule map_const)
  moreover have lb: "length by_role = length ?team"
    using mb by (rule mset_eq_length)
  ultimately have keys: "map Predicted_Fantasy_Score by_role = map Predicted_Fantasy_Score ?team"
    by simp
  let ?with = "sort_values_desc (argsort_float64 np) Predicted_Fantasy_Score by_role"
  let ?without = "sort_values_desc (argsort_float64 np) Predicted_Fantasy_Score ?team"
  have ne: "?with \<noteq> ?without"
    using f keys differ by (rule sort_values_desc_same_keys)
  have lw: "length ?with = 11" "length ?without = 11"
    using lb lr by (simp_all add: length_sort_values_desc [OF f])
  have "zip ?with team_roles \<noteq> zip ?without team_roles"
  proof
    assume "zip ?with team_roles = zip ?without team_roles"
    then have "map fst (zip ?with team_roles) = map fst (zip ?without team_roles)"
      by simp
    then show False using ne lw by simp
  qed
  then have "show_team np by_role \<noteq> show_team np ?team"
    using lw by (simp add: show_team_def assign_team_role_def Let_def)
  then show ?thesis
    using a r by (simp add: optimize_xi_def optimize_xi_without_role_sort_def)
qed

text \<open>
  Claim C6 as stated fails: on \<open>level_pool\<close> the pipeline with the sort by role priority
  and the pipeline without it show different rosters, with each of the two sample sort
  routines.
\<close>

theorem role_sort_observable_on_level_scores:
  "optimize_xi np_insertion level_pool \<noteq> optimize_xi_without_role_sort np_insertion level_pool
   \<and> optimize_xi np_backward level_pool \<noteq> optimize_xi_without_role_sort np_backward level_pool"
  using role_sort_observable_level_pool [OF numpy_ok_insertion]
    role_sort_observable_level_pool [OF numpy_ok_backward]
  by (rule conjI)

section \<open>The role classifier on a missing role\<close>

text \<open>
  \<open>missing_role_pool\<close>: the same shape, with a role text missing in the last row. The
  top-up takes that row into the roster, and the sort by role priority fails on it.
\<close>

lemma missing_role_pool_fails:
  assumes "numpy_ok np"
  shows "optimize_xi np missing_role_pool = Inl AttributeError"
proof -
  have f: "is_argsort (argsort_float64 np)"
    using assms by (simp add: numpy_ok_def)
  let ?keeper = "sample ''Keeper'' ''WK'' 30" and ?pacer = "sample ''Pacer'' ''Bowler'' 20"
  have "\<exists>rest. assemble np missing_role_pool = Inr ([?keeper, ?pacer] @ rest)
               \<and> mset rest = mset (drop 2 missing_role_pool)"
  proof (rule assemble_two_picks [OF f])
    show "role_rows WK missing_role_pool = [?keeper]"
      and "role_rows BAT missing_role_pool = []"
      and "role_rows AR missing_role_pool = []"
      and "role_rows BOWL missing_role_pool = [?pacer]"
      by (simp_all add: missing_role_pool_def no_role_def role_rows_def sample_def isin_def
          str_upper_def upper_def upper_char_def)
    show "filter (\<lambda>p. player_name p \<notin> set (map player_name [?keeper, ?pacer]))
            missing_role_pool = drop 2 missing_role_pool"
      by (simp add: missing_role_pool_def no_role_def sample_def)
    show "length (drop 2 missing_role_pool) \<le> 9"
      by (simp add: missing_role_pool_def)
  qed
  then obtain rest
    where a: "assemble np missing_role_pool = Inr ([?keeper, ?pacer] @ rest)"
      and m: "mset rest = mset (drop 2 missing_role_pool)"
    by blast
  have "set rest = set (drop 2 missing_role_pool)"
    using m by (rule mset_eq_setD)
  then have "no_role ''Newcomer'' 19 \<in> set ([?keeper, ?pacer] @ rest)"
    by (simp add: missing_role_pool_def)
  moreover have "Role (no_role ''Newcomer'' 19) = None"
    by (simp add: no_role_def)
  ultimately have "sort_role_order np ([?keeper, ?pacer] @ rest) = Inl AttributeError"
    by (rule sort_role_order_missing)
  then show ?thesis
    using a by (simp add: optimize_xi_def)
qed

text \<open>
  Claim C7, with the input at which the code departs from it. The buckets are tested in
  the order WK, BAT, AR, BOWL against the keyword table. Upper-casing replaces each of
  the letters a-z (codes 97 to 122) by its capital (32 less) and keeps every other
  character. A tab retains a row iff the row has a role text whose upper-cased form is a
  member of the bucket's keyword list. On a role text, the priority is that of the
  first bucket one of whose keywords occurs in the upper-cased text as a contiguous
  substring, and 99 when no bucket has one. On a missing role cell, which the tabs
  leave out without an error, the priority lambda raises \<^verbatim>\<open>AttributeError\<close>, where the
  claim has it total; in a pool of 11 whose last row has no role text the automatic
  mode fails this way, for every sort routine.
\<close>

theorem role_classifier:
  "bucket_order = [WK, BAT, AR, BOWL]
   \<and> role_map WK = [''BAT WK'', ''WK''] \<and> role_map BAT = [''BAT'', ''BATTER'']
   \<and> role_map AR = [''AR'', ''ALL-ROUNDER''] \<and> role_map BOWL = [''BOWL'', ''BOWLER'']
   \<and> upper s = map upper_char s
   \<and> (of_char (upper_char c) :: nat) =
       (if 97 \<le> (of_char c :: nat) \<and> (of_char c :: nat) \<le> 122 then of_char c - 32 else of_char c)
   \<and> (p \<in> set (role_rows b df) \<longleftrightarrow>
        p \<in> set df \<and> (\<exists>r. Role p = Some r \<and> upper r \<in> set (role_map b)))
   \<and> role_order (Some r) =
       Inr (if \<exists>k \<in> set (role_map WK). \<exists>ps ss. upper r = ps @ k @ ss then 1
            else if \<exists>k \<in> set (role_map BAT). \<exists>ps ss. upper r = ps @ k @ ss then 2
            else if \<exists>k \<in> set (role_map AR). \<exists>ps ss. upper r = ps @ k @ ss then 3
            else if \<exists>k \<in> set (role_map BOWL). \<exists>ps ss. upper r = ps @ k @ ss then 4
            else 99)
   \<and> role_order None = Inl AttributeError
   \<and> (numpy_ok np \<longrightarrow> optimize_xi np missing_role_pool = Inl AttributeError)"
proof (intro conjI)
  show "role_order (Some r) =
       Inr (if \<exists>k \<in> set (role_map WK). \<exists>ps ss. upper r = ps @ k @ ss then 1
            else if \<exists>k \<in> set (role_map BAT). \<exists>ps ss. upper r = ps @ k @ ss then 2
            else if \<exists>k \<in> set (role_map AR). \<exists>ps ss. upper r = ps @ k @ ss then 3
            else if \<exists>k \<in> set (role_map BOWL). \<exists>ps ss. upper r = ps @ k @ ss then 4
            else 99)"
    using role_order_chain [of r] unfolding sublist_def .
  show "(of_char (upper_char c) :: nat) =
       (if 97 \<le> (of_char c :: nat) \<and> (of_char c :: nat) \<le> 122 then of_char c - 32 else of_char c)"
    by (rule upper_char_code)
  show "p \<in> set (role_rows b df) \<longleftrightarrow>
        p \<in> set df \<and> (\<exists>r. Role p = Some r \<and> upper r \<in> set (role_map b))"
    by (rule role_rows_iff)
  show "numpy_ok np \<longrightarrow> optimize_xi np missing_role_pool = Inl AttributeError"
    using missing_role_pool_fails by blast
  show "role_order None = Inl AttributeError"
    by (simp add: role_order_def)
qed (simp_all add: bucket_order_def upper_def)

theorem role_classifier_witness:
  "sample ''A'' ''Bat Wk'' 50 \<in> set (role_rows WK [sample ''A'' ''Bat Wk'' 50, no_role ''B'' 40])
   \<and> sample ''A'' ''Bat Wk'' 50 \<notin> set (role_rows BAT [sample ''A'' ''Bat Wk'' 50, no_role ''B'' 40])
   \<and> no_role ''B'' 40 \<notin> set (role_rows WK [sample ''A'' ''Bat Wk'' 50, no_role ''B'' 40])
   \<and> upper ''Left-Arm Bowler (fast)'' = ''LEFT-ARM BOWLER (FAST)''
   \<and> role_order (Some ''Left-Arm Bowler (fast)'') = Inr 3
   \<and> role_order (Some ''Coach'') = Inr 99
   \<and> role_order (Role (no_role ''B'' 40)) = Inl AttributeError
   \<and> numpy_ok np_backward
   \<and> optimize_xi np_backward missing_role_pool = Inl AttributeError"
proof -
  have u: "upper ''Bat Wk'' = ''BAT WK''"
    by (simp add: upper_def upper_char_def)
  have "upper ''Left-Arm Bowler (fast)'' = ''LEFT-ARM BOWLER (FAST)''"
    by (simp add: upper_def upper_char_def)
  moreover have "role_order (Some ''Left-Arm Bowler (fast)'') = Inr 3"
    "role_order (Some ''Coach'') = Inr 99"
    by (simp_all add: upper_def upper_char_def role_order_def bucket_order_def)
  moreover have "sample ''A'' ''Bat Wk'' 50 \<in> set (role_rows WK [sample ''A'' ''Bat Wk'' 50, no_role ''B'' 40])"
    using role_classifier [of "''Coach''" "CHR ''a''" "sample ''A'' ''Bat Wk'' 50" WK
        "[sample ''A'' ''Bat Wk'' 50, no_role ''B'' 40]" "''Coach''" np_backward] u
    by (simp add: sample_def)
  moreover have "sample ''A'' ''Bat Wk'' 50 \<notin> set (role_rows BAT [sample ''A'' ''Bat Wk'' 50, no_role ''B'' 40])"
    using role_classifier [of "''Coach''" "CHR ''a''" "sample ''A'' ''Bat Wk'' 50" BAT
        "[sample ''A'' ''Bat Wk'' 50, no_role ''B'' 40]" "''Coach''" np_backward] u
    by (simp add: sample_def)
  moreover have "no_role ''B'' 40 \<notin> set (role_rows WK [sample ''A'' ''Bat Wk'' 50, no_role ''B'' 40])"
    using role_classifier [of "''Coach''" "CHR ''a''" "no_role ''B'' 40" WK
        "[sample ''A'' ''Bat Wk'' 50, no_role ''B'' 40]" "''Coach''" np_backward]
    by (simp add: no_role_def)
  moreover have "role_order (Role (no_role ''B'' 40)) = Inl AttributeError"
    using role_classifier [of "''Coach''" "CHR ''a''" "no_role ''B'' 40" WK
        "[sample ''A'' ''Bat Wk'' 50, no_role ''B'' 40]" "''Coach''" np_backward]
    by (simp add: no_role_def)
  moreover have "optimize_xi np_backward missing_role_pool = Inl AttributeError"
    using role_classifier [of "''Coach''" "CHR ''a''" "no_role ''B'' 40" WK
        "[sample ''A'' ''Bat Wk'' 50, no_role ''B'' 40]" "''Coach''" np_backward]
      numpy_ok_backward
    by blast
  ultimately show ?thesis
    using numpy_ok_backward by simp
qed

end
